theory Spec2Isabelle
  imports Main
begin

section \<open>JavaScript values used by the shift tracker\<close>

text \<open>
  A JavaScript number is modelled as \<open>int option\<close>: \<open>None\<close> is \<open>NaN\<close>, and every
  arithmetic operation and comparison treats it as JavaScript does (arithmetic yields
  \<open>NaN\<close>, every comparison with \<open>NaN\<close> is false). Fractions, infinities and the loss
  of precision beyond \<open>2^53\<close> are outside the model.

  A string is a list of characters, read as code units below 256.
\<close>

type_synonym num = "int option"

definition nadd :: "num \<Rightarrow> num \<Rightarrow> num" where
  "nadd a b = (case a of None \<Rightarrow> None | Some x \<Rightarrow> (case b of None \<Rightarrow> None | Some y \<Rightarrow> Some (x + y)))"

definition nsub :: "num \<Rightarrow> num \<Rightarrow> num" where
  "nsub a b = (case a of None \<Rightarrow> None | Some x \<Rightarrow> (case b of None \<Rightarrow> None | Some y \<Rightarrow> Some (x - y)))"

definition nmul :: "num \<Rightarrow> num \<Rightarrow> num" where
  "nmul a b = (case a of None \<Rightarrow> None | Some x \<Rightarrow> (case b of None \<Rightarrow> None | Some y \<Rightarrow> Some (x * y)))"

definition nlt :: "num \<Rightarrow> num \<Rightarrow> bool" where
  "nlt a b = (case a of None \<Rightarrow> False | Some x \<Rightarrow> (case b of None \<Rightarrow> False | Some y \<Rightarrow> x < y))"

definition nge :: "num \<Rightarrow> num \<Rightarrow> bool" where
  "nge a b = (case a of None \<Rightarrow> False | Some x \<Rightarrow> (case b of None \<Rightarrow> False | Some y \<Rightarrow> y \<le> x))"

definition nle :: "num \<Rightarrow> num \<Rightarrow> bool" where
  "nle a b = (case a of None \<Rightarrow> False | Some x \<Rightarrow> (case b of None \<Rightarrow> False | Some y \<Rightarrow> x \<le> y))"

subsection \<open>String primitives\<close>

definition isWhiteSpace :: "char \<Rightarrow> bool" where
  \<comment> \<open>the white space and line terminators that \<open>String.prototype.trim\<close> strips, below 256\<close>
  "isWhiteSpace c = (c \<in> set [CHR 0x09, CHR 0x0A, CHR 0x0B, CHR 0x0C, CHR 0x0D, CHR 0x20, CHR 0xA0])"

definition trim :: "string \<Rightarrow> string" where
  "trim s = rev (dropWhile isWhiteSpace (rev (dropWhile isWhiteSpace s)))"

definition lowerChar :: "char \<Rightarrow> char" where
  "lowerChar c = (let n = (of_char c :: nat) in
     if (65 \<le> n \<and> n \<le> 90) \<or> (192 \<le> n \<and> n \<le> 222 \<and> n \<noteq> 215) then char_of (n + 32) else c)"

definition toLowerCase :: "string \<Rightarrow> string" where
  "toLowerCase s = map lowerChar s"

fun split :: "char \<Rightarrow> string \<Rightarrow> string list" where
  \<comment> \<open>\<open>s.split(sep)\<close> for a one-character separator: never an empty array\<close>
  "split sep [] = [[]]"
| "split sep (c # cs) =
     (if c = sep then [] # split sep cs
      else (case split sep cs of [] \<Rightarrow> [[c]] | p # ps \<Rightarrow> (c # p) # ps))"

fun join :: "char \<Rightarrow> string list \<Rightarrow> string" where
  "join sep [] = []"
| "join sep [x] = x"
| "join sep (x # y # ys) = x @ sep # join sep (y # ys)"

definition at :: "'a list \<Rightarrow> nat \<Rightarrow> 'a option" where
  \<comment> \<open>\<open>xs[i]\<close>: \<open>None\<close> is \<open>undefined\<close>\<close>
  "at xs i = (if i < length xs then Some (xs ! i) else None)"

definition isDigit :: "char \<Rightarrow> bool" where
  "isDigit c = (48 \<le> (of_char c :: nat) \<and> (of_char c :: nat) \<le> 57)"

definition digitVal :: "char \<Rightarrow> nat" where
  "digitVal c = of_char c - 48"

definition toNumber :: "string \<Rightarrow> num" where
  \<comment> \<open>\<open>Number(s)\<close> on the literals the file formats use: surrounding white space is
      dropped, the empty string is 0, a run of decimal digits is its value. Signed,
      fractional, exponent and radix-prefixed literals are outside the model and read as
      \<open>NaN\<close> here.\<close>
  "toNumber s = (let t = trim s in
     if list_all isDigit t then Some (int (foldl (\<lambda>a c. 10 * a + digitVal c) 0 t)) else None)"

definition numAt :: "num list \<Rightarrow> nat \<Rightarrow> num" where
  \<comment> \<open>an array element used in arithmetic: \<open>undefined\<close> behaves as \<open>NaN\<close>\<close>
  "numAt xs i = (case at xs i of None \<Rightarrow> None | Some v \<Rightarrow> v)"

fun digitChar :: "nat \<Rightarrow> char" where
  "digitChar n = char_of (48 + n)"

function showNat :: "nat \<Rightarrow> string" where
  "showNat n = (if n < 10 then [digitChar n] else showNat (n div 10) @ [digitChar (n mod 10)])"
  by pat_completeness auto
termination
  by (relation "measure id") auto

definition padStart2 :: "string \<Rightarrow> string" where
  \<comment> \<open>\<open>s.padStart(2, '0')\<close>\<close>
  "padStart2 s = replicate (2 - length s) (CHR ''0'') @ s"

section \<open>Helper methods\<close>

definition DAY_SECONDS :: int where
  "DAY_SECONDS = 24 * 3600"

definition HOURS_START :: int where
  "HOURS_START = 8 * 3600"

definition HOURS_END :: int where
  "HOURS_END = 22 * 3600"

definition DAILY_MINIMUM_NORMAL :: int where
  "DAILY_MINIMUM_NORMAL = 8 * 3600 + 24 * 60"

definition DAILY_MINIMUM_EID :: int where
  "DAILY_MINIMUM_EID = 6 * 3600"

subsection \<open>Dates\<close>

text \<open>
  \<open>new Date(s)\<close> is modelled on the documented form of the date field, \<open>yyyy-mm-dd\<close>,
  which JavaScript reads as midnight UTC of that day. As in V8 (the engine of Node.js) the
  day field may be 01 to 31 for every month, a day beyond the month's length rolling over
  into the next month. Every other string is an Invalid Date here (time value \<open>NaN\<close>);
  the further formats an engine accepts are outside the model.

  The day number follows the ECMAScript definitions \<open>DayFromYear\<close> and \<open>MakeDay\<close>.
\<close>

definition decimal :: "string \<Rightarrow> int" where
  "decimal s = int (foldl (\<lambda>a c. 10 * a + digitVal c) 0 s)"

definition parseDate :: "string \<Rightarrow> (int \<times> int \<times> int) option" where
  \<comment> \<open>the year, month (1 to 12) and day (1 to 31) fields of \<open>yyyy-mm-dd\<close>\<close>
  "parseDate s =
     (if length s = 10 \<and> s ! 4 = CHR ''-'' \<and> s ! 7 = CHR ''-''
         \<and> list_all isDigit (take 4 s) \<and> list_all isDigit (take 2 (drop 5 s))
         \<and> list_all isDigit (drop 8 s)
      then (let y = decimal (take 4 s); m = decimal (take 2 (drop 5 s)); d = decimal (drop 8 s)
            in if 1 \<le> m \<and> m \<le> 12 \<and> 1 \<le> d \<and> d \<le> 31 then Some (y, m, d) else None)
      else None)"

definition isLeapYear :: "int \<Rightarrow> bool" where
  "isLeapYear y = (if y mod 4 = 0 then (if y mod 100 = 0 then y mod 400 = 0 else True) else False)"

definition dayFromYear :: "int \<Rightarrow> int" where
  "dayFromYear y = 365 * (y - 1970) + (y - 1969) div 4 - (y - 1901) div 100 + (y - 1601) div 400"

definition monthStart :: "int \<Rightarrow> int \<Rightarrow> int" where
  \<comment> \<open>days of the year before the first of month \<open>m\<close> (1 to 12)\<close>
  "monthStart y m =
     [0, 31, 59, 90, 120, 151, 181, 212, 243, 273, 304, 334] ! nat (m - 1)
       + (if isLeapYear y \<and> 2 < m then 1 else 0)"

definition makeDay :: "int \<Rightarrow> int \<Rightarrow> int \<Rightarrow> int" where
  "makeDay y m d = dayFromYear y + monthStart y m + d - 1"

definition msPerDay :: int where
  "msPerDay = 86400000"

definition newDate :: "string \<Rightarrow> num" where
  \<comment> \<open>the time value of \<open>new Date(s)\<close>, milliseconds since 1970-01-01 UTC\<close>
  "newDate s = (case parseDate s of None \<Rightarrow> None | Some (y, m, d) \<Rightarrow> Some (makeDay y m d * msPerDay))"

definition newDateOpt :: "string option \<Rightarrow> num" where
  \<comment> \<open>\<open>new Date(undefined)\<close> is an Invalid Date\<close>
  "newDateOpt v = (case v of None \<Rightarrow> None | Some s \<Rightarrow> newDate s)"

definition daysInMonth :: "int \<Rightarrow> int \<Rightarrow> int" where
  "daysInMonth y m =
     (if m = 2 then (if isLeapYear y then 29 else 28)
      else if m = 4 \<or> m = 6 \<or> m = 9 \<or> m = 11 then 30 else 31)"

definition civil :: "int \<times> int \<times> int \<Rightarrow> int \<times> int \<times> int" where
  \<comment> \<open>the calendar date a parsed date denotes: a day beyond the month's end rolls over\<close>
  "civil c = (case c of (y, m, d) \<Rightarrow>
     if d \<le> daysInMonth y m then (y, m, d)
     else if m = 12 then (y + 1, 1, d - daysInMonth y m)
     else (y, m + 1, d - daysInMonth y m))"

definition prevDay :: "int \<times> int \<times> int \<Rightarrow> int \<times> int \<times> int" where
  "prevDay c = (case c of (y, m, d) \<Rightarrow>
     if 1 < d then (y, m, d - 1)
     else if 1 < m then (y, m - 1, daysInMonth y (m - 1))
     else (y - 1, 12, 31))"

definition nextDay :: "int \<times> int \<times> int \<Rightarrow> int \<times> int \<times> int" where
  "nextDay c = (case c of (y, m, d) \<Rightarrow>
     if d < daysInMonth y m then (y, m, d + 1)
     else if m < 12 then (y, m + 1, 1)
     else (y + 1, 1, 1))"

definition shiftDays :: "int \<Rightarrow> int \<times> int \<times> int \<Rightarrow> int \<times> int \<times> int" where
  "shiftDays k c = (if k < 0 then (prevDay ^^ nat (- k)) c else (nextDay ^^ nat k) c)"

definition getUTCMonth :: "string \<Rightarrow> num" where
  \<comment> \<open>\<open>new Date(s).getUTCMonth()\<close>: 0 to 11, \<open>NaN\<close> for an Invalid Date\<close>
  "getUTCMonth s = (case parseDate s of None \<Rightarrow> None | Some c \<Rightarrow> Some (fst (snd (civil c)) - 1))"

definition getMonth :: "(int \<Rightarrow> int) \<Rightarrow> string \<Rightarrow> num" where
  \<comment> \<open>\<open>new Date(s).getMonth()\<close>, the month in the host's local time. \<open>tz t\<close> is the
      host's offset from UTC in minutes at time value \<open>t\<close> (positive east of Greenwich):
      the local calendar day of midnight UTC lies \<open>\<lfloor>tz t * 60 / 86400\<rfloor>\<close> days later.\<close>
  "getMonth tz s =
     (case parseDate s of
        None \<Rightarrow> None
      | Some (y, m, d) \<Rightarrow>
          Some (fst (snd (shiftDays ((tz (makeDay y m d * msPerDay) * 60) div 86400) (civil (y, m, d)))) - 1))"

definition getUTCDay :: "string \<Rightarrow> num" where
  \<comment> \<open>\<open>new Date(s).getUTCDay()\<close>: 0 is Sunday; 1970-01-01 was a Thursday\<close>
  "getUTCDay s = (case parseDate s of None \<Rightarrow> None | Some (y, m, d) \<Rightarrow> Some ((makeDay y m d + 4) mod 7))"

definition EID_DATE_START :: num where
  "EID_DATE_START = newDate ''2025-04-10''"

definition EID_DATE_END :: num where
  "EID_DATE_END = newDate ''2025-04-30''"

definition isEidDate :: "num \<Rightarrow> bool" where
  \<comment> \<open>\<open>d >= EID_DATE.START && d <= EID_DATE.END\<close>\<close>
  "isEidDate d = (nge d EID_DATE_START \<and> nle d EID_DATE_END)"

definition DAYS :: "string \<Rightarrow> int option" where
  "DAYS = map_of [(''sunday'', 0), (''monday'', 1), (''tuesday'', 2), (''wednesday'', 3),
                  (''thursday'', 4), (''friday'', 5), (''saturday'', 6)]"

subsection \<open>Files\<close>

text \<open>
  A file is its content, \<open>None\<close> when it does not exist. Reading a file that does not
  exist throws; the other failures of the file system are outside the model.
\<close>

datatype error = ENOENT | TypeError

definition readLines :: "string \<Rightarrow> string list" where
  \<comment> \<open>the lines of an existing file's content\<close>
  "readLines content = filter (\<lambda>l. l \<noteq> []) (split (CHR 0x0A) (trim content))"

definition applyModifier :: "string option \<Rightarrow> num \<Rightarrow> num" where
  "applyModifier modifier hours =
     (case modifier of
        None \<Rightarrow> hours
      | Some m \<Rightarrow>
          if m = [] then hours
          else (let h1 = (if m = ''pm'' \<and> hours \<noteq> Some 12 then nadd hours (Some 12) else hours)
                in if m = ''am'' \<and> h1 = Some 12 then Some 0 else h1))"

definition parseToSeconds :: "string \<Rightarrow> num" where
  "parseToSeconds str =
     (let s = toLowerCase (trim str);
          parts = split (CHR '' '') s;
          time = hd parts;
          modifier = at parts 1;
          nums = map toNumber (split (CHR '':'') time);
          hours = applyModifier modifier (numAt nums 0);
          minutes = numAt nums 1;
          seconds = numAt nums 2
      in nadd (nadd (nmul hours (Some 3600)) (nmul minutes (Some 60))) seconds)"

definition formatToTime :: "num \<Rightarrow> string" where
  "formatToTime seconds =
     (case seconds of
        None \<Rightarrow> ''NaN:NaN:NaN''
      | Some v \<Rightarrow>
          (let sec = (if v < 0 then 0 else v);
               h = sec div 3600;
               m = (sec mod 3600) div 60;
               s = sec mod 60
           in showNat (nat h) @ '':'' @ padStart2 (showNat (nat m)) @ '':'' @ padStart2 (showNat (nat s))))"

section \<open>Function 1: getShiftDuration\<close>

definition wrapEnd :: "num \<Rightarrow> num \<Rightarrow> num" where
  \<comment> \<open>\<open>if (endSeconds < startSeconds) endSeconds += DAY_SECONDS\<close>\<close>
  "wrapEnd startSeconds endSeconds =
     (if nlt endSeconds startSeconds then nadd endSeconds (Some DAY_SECONDS) else endSeconds)"

definition getShiftDuration :: "string \<Rightarrow> string \<Rightarrow> string" where
  "getShiftDuration startTime endTime =
     (let startSeconds = parseToSeconds startTime;
          endSeconds = wrapEnd startSeconds (parseToSeconds endTime)
      in formatToTime (nsub endSeconds startSeconds))"

section \<open>Function 2: getIdleTime\<close>

function idleLoop :: "int \<Rightarrow> int \<Rightarrow> int \<Rightarrow> int" where
  "idleLoop idleTime currentTime endSeconds =
     (if currentTime < endSeconds then
        (let currentDayStart = (currentTime div DAY_SECONDS) * DAY_SECONDS;
             currentDayEnd = currentDayStart + DAY_SECONDS;
             segmentEnd = min endSeconds currentDayEnd;
             deliveryStart = currentDayStart + HOURS_START;
             deliveryEnd = currentDayStart + HOURS_END;
             idle1 = (if currentTime < deliveryStart
                      then idleTime + max 0 (min segmentEnd deliveryStart - currentTime)
                      else idleTime);
             idle2 = (if segmentEnd > deliveryEnd
                      then idle1 + max 0 (segmentEnd - max currentTime deliveryEnd)
                      else idle1)
         in idleLoop idle2 segmentEnd endSeconds)
      else idleTime)"
  by pat_completeness auto
termination
proof (relation "measure (\<lambda>(idleTime, currentTime, endSeconds). nat (endSeconds - currentTime))")
  show "wf (measure (\<lambda>(idleTime, currentTime, endSeconds). nat (endSeconds - currentTime)))"
    by simp
next
  fix idleTime currentTime endSeconds :: int
  fix currentDayStart currentDayEnd segmentEnd deliveryStart deliveryEnd idle1 idle2 :: int
  assume lt: "currentTime < endSeconds"
    and a: "currentDayStart = currentTime div DAY_SECONDS * DAY_SECONDS"
    and b: "currentDayEnd = currentDayStart + DAY_SECONDS"
    and c: "segmentEnd = min endSeconds currentDayEnd"
  have "currentTime < currentTime div 86400 * 86400 + 86400"
    by presburger
  with lt a b c have "currentTime < segmentEnd"
    by (simp add: DAY_SECONDS_def)
  with lt c show "((idle2, segmentEnd, endSeconds), (idleTime, currentTime, endSeconds))
      \<in> measure (\<lambda>(idleTime, currentTime, endSeconds). nat (endSeconds - currentTime))"
    by simp
qed

definition getIdleTime :: "string \<Rightarrow> string \<Rightarrow> string" where
  "getIdleTime startTime endTime =
     (let startSeconds = parseToSeconds startTime;
          endSeconds = wrapEnd startSeconds (parseToSeconds endTime)
      in (case startSeconds of
            None \<Rightarrow> formatToTime (Some 0)
          | Some s \<Rightarrow>
              (case endSeconds of
                 None \<Rightarrow> formatToTime (Some 0)
               | Some e \<Rightarrow> formatToTime (Some (idleLoop 0 s e)))))"

section \<open>Function 3: getActiveTime\<close>

definition getActiveTime :: "string \<Rightarrow> string \<Rightarrow> string" where
  "getActiveTime shiftDuration idleTime =
     formatToTime (nsub (parseToSeconds shiftDuration) (parseToSeconds idleTime))"

section \<open>Function 4: metQuota\<close>

definition metQuota :: "string \<Rightarrow> string \<Rightarrow> bool" where
  "metQuota date activeTime =
     (let currentDate = newDate date;
          isEid = isEidDate currentDate
      in nge (parseToSeconds activeTime)
             (Some (if isEid then DAILY_MINIMUM_EID else DAILY_MINIMUM_NORMAL)))"

section \<open>Function 5: addShiftRecord\<close>

record shiftObj =
  o_driverID :: string
  o_driverName :: string
  o_date :: string
  o_startTime :: string
  o_endTime :: string

text \<open>
  The objects of the in-memory record array. A field is \<open>None\<close> when the object has no
  such property (or the line had no such part), which a read yields as \<open>undefined\<close>.
\<close>

record shiftRecord =
  r_driverID :: string
  r_driverName :: "string option"
  r_date :: "string option"
  r_startTime :: "string option"
  r_endTime :: "string option"
  r_shiftDuration :: "string option"
  r_idleTime :: "string option"
  r_activeTime :: "string option"
  r_metQuota :: "bool option"
  r_hasBonus :: "bool option"

definition parseRecord :: "string \<Rightarrow> shiftRecord" where
  \<comment> \<open>the object built from a line: five properties only\<close>
  "parseRecord line =
     (let parts = split (CHR '','') line
      in \<lparr> r_driverID = hd parts, r_driverName = at parts 1, r_date = at parts 2,
           r_startTime = at parts 3, r_endTime = at parts 4,
           r_shiftDuration = None, r_idleTime = None, r_activeTime = None,
           r_metQuota = None, r_hasBonus = None \<rparr>)"

definition strOf :: "string option \<Rightarrow> string" where
  \<comment> \<open>a string property inside a template literal\<close>
  "strOf v = (case v of None \<Rightarrow> ''undefined'' | Some s \<Rightarrow> s)"

definition boolOf :: "bool option \<Rightarrow> string" where
  \<comment> \<open>a boolean property inside a template literal\<close>
  "boolOf v = (case v of None \<Rightarrow> ''undefined'' | Some b \<Rightarrow> (if b then ''true'' else ''false''))"

definition printedFields :: "shiftRecord \<Rightarrow> string list" where
  \<comment> \<open>the ten \<open>${...}\<close> substitutions of the template literal\<close>
  "printedFields r =
     [r_driverID r, strOf (r_driverName r), strOf (r_date r), strOf (r_startTime r),
      strOf (r_endTime r), strOf (r_shiftDuration r), strOf (r_idleTime r),
      strOf (r_activeTime r), boolOf (r_metQuota r), boolOf (r_hasBonus r)]"

definition formatRecord :: "shiftRecord \<Rightarrow> string" where
  "formatRecord r = join (CHR '','') (printedFields r)"

definition dateCompare :: "shiftRecord \<Rightarrow> shiftRecord \<Rightarrow> num" where
  \<comment> \<open>\<open>new Date(a.date) - new Date(b.date)\<close>\<close>
  "dateCompare a b = nsub (newDateOpt (r_date a)) (newDateOpt (r_date b))"

text \<open>
  \<open>Array.prototype.sort\<close> is stable, and reads a comparator result of \<open>NaN\<close> as 0. It is
  modelled as a stable insertion sort: an element moves behind the elements it compares
  greater than. (With Invalid Dates the comparator is not a consistent order and the
  language leaves the resulting order to the engine.)
\<close>

fun insertRecord :: "shiftRecord \<Rightarrow> shiftRecord list \<Rightarrow> shiftRecord list" where
  "insertRecord x [] = [x]"
| "insertRecord x (y # ys) =
     (if nlt (Some 0) (dateCompare x y) then y # insertRecord x ys else x # y # ys)"

definition sortRecords :: "shiftRecord list \<Rightarrow> shiftRecord list" where
  "sortRecords rs = foldr insertRecord rs []"

definition isDuplicate :: "shiftObj \<Rightarrow> shiftRecord \<Rightarrow> bool" where
  "isDuplicate obj r = (r_driverID r = o_driverID obj \<and> r_date r = Some (o_date obj))"

definition makeRecord :: "shiftObj \<Rightarrow> shiftRecord" where
  \<comment> \<open>the derived fields in the composition duration, idle, active, quota\<close>
  "makeRecord obj =
     (let shiftDuration = getShiftDuration (o_startTime obj) (o_endTime obj);
          idleTime = getIdleTime (o_startTime obj) (o_endTime obj);
          activeTime = getActiveTime shiftDuration idleTime;
          metQuotaFlag = metQuota (o_date obj) activeTime
      in \<lparr> r_driverID = o_driverID obj, r_driverName = Some (o_driverName obj),
           r_date = Some (o_date obj), r_startTime = Some (o_startTime obj),
           r_endTime = Some (o_endTime obj), r_shiftDuration = Some shiftDuration,
           r_idleTime = Some idleTime, r_activeTime = Some activeTime,
           r_metQuota = Some metQuotaFlag, r_hasBonus = Some False \<rparr>)"

definition addShiftRecord :: "string option \<Rightarrow> shiftObj \<Rightarrow> string option \<times> shiftRecord option" where
  \<comment> \<open>returns the file after the call and the returned object, \<open>None\<close> for \<open>{}\<close>\<close>
  "addShiftRecord textFile obj =
     (let content = (case textFile of None \<Rightarrow> [] | Some c \<Rightarrow> c);
          records = map parseRecord (readLines content)
      in if list_ex (isDuplicate obj) records then (Some content, None)
         else (let newRecord = makeRecord obj;
                   sorted = sortRecords (records @ [newRecord]);
                   fileContent = join (CHR 0x0A) (map formatRecord sorted)
               in (Some fileContent, Some newRecord)))"

section \<open>Function 7: countBonusPerMonth\<close>

definition strictEq :: "num \<Rightarrow> num \<Rightarrow> bool" where
  \<comment> \<open>\<open>===\<close> on numbers: \<open>NaN\<close> equals nothing\<close>
  "strictEq a b = (case a of None \<Rightarrow> False | Some x \<Rightarrow> b = Some x)"

definition countBonusStep :: "(int \<Rightarrow> int) \<Rightarrow> string \<Rightarrow> num \<Rightarrow> bool \<times> int \<Rightarrow> string \<Rightarrow> bool \<times> int" where
  \<comment> \<open>one round of the loop over the lines, on \<open>(driverExists, bonusCount)\<close>\<close>
  "countBonusStep tz driverID targetMonth st line =
     (let parts = split (CHR '','') (trim line)
      in if length parts < 10 then st
         else (let recordDriverID = parts ! 0;
                   recordDate = parts ! 2;
                   hasBonus = (parts ! 9 = ''true'')
               in if recordDriverID \<noteq> driverID \<or> \<not> hasBonus then st
                  else (let recordMonth = nadd (getMonth tz recordDate) (Some 1)
                        in (True, if strictEq recordMonth targetMonth \<and> hasBonus
                                  then snd st + 1 else snd st))))"

definition countBonusPerMonth :: "(int \<Rightarrow> int) \<Rightarrow> string option \<Rightarrow> string \<Rightarrow> string \<Rightarrow> int" where
  "countBonusPerMonth tz textFile driverID month =
     (case textFile of
        None \<Rightarrow> - 1
      | Some content \<Rightarrow>
          (let st = foldl (countBonusStep tz driverID (toNumber month)) (False, 0) (readLines content)
           in if fst st then snd st else - 1))"

section \<open>Function 8: getTotalActiveHoursPerMonth\<close>

definition totalActiveStep :: "(int \<Rightarrow> int) \<Rightarrow> string \<Rightarrow> int \<Rightarrow> num \<Rightarrow> string \<Rightarrow> num" where
  "totalActiveStep tz driverID month totalSeconds line =
     (let parts = split (CHR '','') line
      in if length parts < 10 then totalSeconds
         else (let recordDriverID = parts ! 0;
                   recordDate = parts ! 2;
                   activeTime = parts ! 7
               in if recordDriverID \<noteq> driverID then totalSeconds
                  else if strictEq (nadd (getMonth tz recordDate) (Some 1)) (Some month)
                       then nadd totalSeconds (parseToSeconds activeTime)
                       else totalSeconds))"

definition getTotalActiveHoursPerMonth ::
    "(int \<Rightarrow> int) \<Rightarrow> string option \<Rightarrow> string \<Rightarrow> int \<Rightarrow> error + string" where
  \<comment> \<open>\<open>if (!fs.existsSync(textFile)) formatToTime(0);\<close> computes a value and drops it:
      the call goes on to \<open>readLines\<close>, whose \<open>readFileSync\<close> throws\<close>
  "getTotalActiveHoursPerMonth tz textFile driverID month =
     (case textFile of
        None \<Rightarrow> Inl ENOENT
      | Some content \<Rightarrow>
          Inr (formatToTime (foldl (totalActiveStep tz driverID month) (Some 0) (readLines content))))"

section \<open>Function 9: getRequiredHoursPerMonth\<close>

fun getDayOffLines :: "string list \<Rightarrow> string \<Rightarrow> error + string" where
  \<comment> \<open>the loop of \<open>getDayOff\<close>; \<open>parts[1].trim()\<close> throws when the line has one part\<close>
  "getDayOffLines [] driverID = Inr []"
| "getDayOffLines (line # rest) driverID =
     (let parts = split (CHR '','') line
      in if hd parts = driverID
         then (case at parts 1 of
                 None \<Rightarrow> Inl TypeError
               | Some p \<Rightarrow> Inr (toLowerCase (trim p)))
         else getDayOffLines rest driverID)"

definition getDayOff :: "string \<Rightarrow> string \<Rightarrow> error + string" where
  "getDayOff rateContent driverID = getDayOffLines (readLines rateContent) driverID"

definition uniqueDatesStep :: "int \<Rightarrow> string \<Rightarrow> string list \<Rightarrow> string \<Rightarrow> string list" where
  \<comment> \<open>one round of the loop of \<open>getUniqueDates\<close>; the \<open>Set\<close> is the list of its
      members in insertion order\<close>
  "uniqueDatesStep targetMonth driverID uniqueDates line =
     (let parts = split (CHR '','') line
      in if length parts < 10 then uniqueDates
         else (let recordDriverID = parts ! 0;
                   recordDate = parts ! 2
               in if recordDriverID \<noteq> driverID then uniqueDates
                  else if strictEq (nadd (getUTCMonth recordDate) (Some 1)) (Some targetMonth)
                       then (if recordDate \<in> set uniqueDates then uniqueDates
                             else uniqueDates @ [recordDate])
                       else uniqueDates))"

definition getUniqueDates :: "string \<Rightarrow> int \<Rightarrow> string \<Rightarrow> string list" where
  "getUniqueDates content targetMonth driverID =
     foldl (uniqueDatesStep targetMonth driverID) [] (readLines content)"

definition requiredStep :: "int \<Rightarrow> int \<Rightarrow> string \<Rightarrow> int" where
  "requiredStep dayOffNum totalRequiredSeconds dateStr =
     (if strictEq (getUTCDay dateStr) (Some dayOffNum) then totalRequiredSeconds
      else if isEidDate (newDate dateStr) then totalRequiredSeconds + DAILY_MINIMUM_EID
      else totalRequiredSeconds + DAILY_MINIMUM_NORMAL)"

definition getTotalRequiredSeconds :: "string list \<Rightarrow> int \<Rightarrow> int" where
  "getTotalRequiredSeconds uniqueDates dayOffNum = foldl (requiredStep dayOffNum) 0 uniqueDates"

definition dayOffNumOf :: "string \<Rightarrow> int" where
  \<comment> \<open>\<open>DAYS[dayOffStr] !== undefined ? DAYS[dayOffStr] : -1\<close>. (An inherited property name
      such as \<open>constructor\<close> yields an object, which like \<open>-1\<close> equals no weekday.)\<close>
  "dayOffNumOf dayOffStr = (case DAYS dayOffStr of None \<Rightarrow> - 1 | Some n \<Rightarrow> n)"

definition getRequiredHoursPerMonth ::
    "string option \<Rightarrow> string option \<Rightarrow> num \<Rightarrow> string \<Rightarrow> int \<Rightarrow> error + string" where
  \<comment> \<open>\<open>bonusCount\<close> and \<open>month\<close> are numbers, so \<open>Number(...)\<close> leaves them as they are\<close>
  "getRequiredHoursPerMonth textFile rateFile bonusCount driverID month =
     (case textFile of
        None \<Rightarrow> Inr (formatToTime (Some 0))
      | Some content \<Rightarrow>
          (case rateFile of
             None \<Rightarrow> Inr (formatToTime (Some 0))
           | Some rateContent \<Rightarrow>
               (case getDayOff rateContent driverID of
                  Inl e \<Rightarrow> Inl e
                | Inr dayOffStr \<Rightarrow>
                    (let dayOffNum = dayOffNumOf dayOffStr;
                         uniqueDates = getUniqueDates content month driverID;
                         totalRequiredSeconds = getTotalRequiredSeconds uniqueDates dayOffNum;
                         validBonus = (case bonusCount of None \<Rightarrow> 0 | Some b \<Rightarrow> b);
                         total = totalRequiredSeconds - validBonus * 2 * 3600
                     in Inr (formatToTime (Some (if total < 0 then 0 else total)))))))"

section \<open>Function 10: getNetPay\<close>

definition getNetPay :: "string \<Rightarrow> string \<Rightarrow> string \<Rightarrow> string option \<Rightarrow> int option" where
  \<comment> \<open>the body is empty: every call returns \<open>undefined\<close>, here \<open>None\<close>\<close>
  "getNetPay driverID actualHours requiredHours rateFile = None"

section \<open>Auxiliary predicates\<close>

definition nonnegNum :: "num \<Rightarrow> bool" where
  "nonnegNum x = (case x of None \<Rightarrow> True | Some v \<Rightarrow> 0 \<le> v)"

definition inEidWindow :: "string \<Rightarrow> bool" where
  \<comment> \<open>the date string names a day from 2025-04-10 to 2025-04-30\<close>
  "inEidWindow date =
     (case parseDate date of
        None \<Rightarrow> False
      | Some (y, m, d) \<Rightarrow> y = 2025 \<and> m = 4 \<and> 10 \<le> d \<and> d \<le> 30)"

definition dailyMinimum :: "string \<Rightarrow> int" where
  \<comment> \<open>the threshold of a date: the holiday one inside the window, else the ordinary one\<close>
  "dailyMinimum date = (if inEidWindow date then 6 * 3600 else 8 * 3600 + 24 * 60)"

definition dateInMonth :: "string \<Rightarrow> int \<Rightarrow> bool" where
  \<comment> \<open>the date string names a day of calendar month \<open>month\<close> (1 to 12), of any year\<close>
  "dateInMonth date month =
     (case parseDate date of None \<Rightarrow> False | Some c \<Rightarrow> fst (snd (civil c)) = month)"

definition driverLineIn :: "string \<Rightarrow> int \<Rightarrow> string \<Rightarrow> bool" where
  \<comment> \<open>a record line (ten fields or more) of the driver, dated in the month\<close>
  "driverLineIn driverID month line =
     (let parts = split (CHR '','') line
      in 10 \<le> length parts \<and> parts ! 0 = driverID \<and> dateInMonth (parts ! 2) month)"

definition workedDates :: "string \<Rightarrow> string \<Rightarrow> int \<Rightarrow> string set" where
  \<comment> \<open>the distinct dates in the month on which the driver has a record\<close>
  "workedDates content driverID month =
     set (map (\<lambda>line. split (CHR '','') line ! 2)
            (filter (driverLineIn driverID month) (readLines content)))"

definition weekdayNames :: "string list" where
  \<comment> \<open>the weekday names in the order of \<open>getUTCDay\<close>, Sunday first\<close>
  "weekdayNames = [''sunday'', ''monday'', ''tuesday'', ''wednesday'', ''thursday'', ''friday'',
                   ''saturday'']"

definition isDayOff :: "string \<Rightarrow> string \<Rightarrow> bool" where
  \<comment> \<open>the date falls on the weekday named by \<open>dayOffStr\<close>\<close>
  "isDayOff dayOffStr date =
     (case getUTCDay date of
        None \<Rightarrow> False
      | Some n \<Rightarrow> 0 \<le> n \<and> n < 7 \<and> weekdayNames ! nat n = dayOffStr)"

definition rateLineOf :: "string \<Rightarrow> string \<Rightarrow> string option" where
  \<comment> \<open>the driver's line of the rate table: the first whose first field is the driver's\<close>
  "rateLineOf rateContent driverID =
     find (\<lambda>line. hd (split (CHR '','') line) = driverID) (readLines rateContent)"

definition driverRecord :: "string \<Rightarrow> string \<Rightarrow> bool" where
  \<comment> \<open>a record line (ten fields or more) of the driver\<close>
  "driverRecord driverID line =
     (let parts = split (CHR '','') line in 10 \<le> length parts \<and> parts ! 0 = driverID)"

definition isoDated :: "string \<Rightarrow> bool" where
  \<comment> \<open>the date field of the line has the form \<open>yyyy-mm-dd\<close>\<close>
  "isoDated line = (parseDate (split (CHR '','') line ! 2) \<noteq> None)"

definition requiredOf :: "int \<Rightarrow> string \<Rightarrow> int" where
  \<comment> \<open>what one date adds to the total in \<open>getTotalRequiredSeconds\<close>\<close>
  "requiredOf dayOffNum dateStr =
     (if strictEq (getUTCDay dateStr) (Some dayOffNum) then 0
      else if isEidDate (newDate dateStr) then DAILY_MINIMUM_EID
      else DAILY_MINIMUM_NORMAL)"

definition noSeparator :: "string \<Rightarrow> bool" where
  \<comment> \<open>no comma and no line feed\<close>
  "noSeparator s = (CHR '','' \<notin> set s \<and> CHR 0x0A \<notin> set s)"

definition noLeadingSpace :: "string \<Rightarrow> bool" where
  "noLeadingSpace s = (case s of [] \<Rightarrow> True | c # _ \<Rightarrow> \<not> isWhiteSpace c)"

definition plainFields :: "shiftObj \<Rightarrow> bool" where
  \<comment> \<open>the five supplied fields survive being written to a line and read back\<close>
  "plainFields obj =
     (noSeparator (o_driverID obj) \<and> noSeparator (o_driverName obj) \<and> noSeparator (o_date obj)
      \<and> noSeparator (o_startTime obj) \<and> noSeparator (o_endTime obj)
      \<and> noLeadingSpace (o_driverID obj))"

definition plainRecord :: "shiftRecord \<Rightarrow> bool" where
  "plainRecord r = list_all noSeparator (printedFields r)"

definition plainLine :: "string \<Rightarrow> bool" where
  \<comment> \<open>a line with a date field whose driverID does not begin with white space\<close>
  "plainLine line = (3 \<le> length (split (CHR '','') line) \<and> noLeadingSpace line)"

definition recordsFor :: "string \<Rightarrow> string \<Rightarrow> string \<Rightarrow> shiftRecord list" where
  \<comment> \<open>the records of a file's content that carry the pair \<open>(driverID, date)\<close>\<close>
  "recordsFor content driverID date =
     filter (\<lambda>r. r_driverID r = driverID \<and> r_date r = Some date)
       (map parseRecord (readLines content))"

definition bonusLine :: "string \<Rightarrow> string \<Rightarrow> bool" where
  \<comment> \<open>a record line of the driver whose bonus flag is \<open>true\<close>, as \<open>countBonusPerMonth\<close> reads it\<close>
  "bonusLine driverID line =
     (let parts = split (CHR '','') (trim line)
      in 10 \<le> length parts \<and> parts ! 0 = driverID \<and> parts ! 9 = ''true'')"

definition bonusLineIn :: "string \<Rightarrow> string \<Rightarrow> bool" where
  \<comment> \<open>the line is dated in the month that the string \<open>month\<close> names\<close>
  "bonusLineIn month line =
     (case toNumber month of
        None \<Rightarrow> False
      | Some m \<Rightarrow> dateInMonth (split (CHR '','') (trim line) ! 2) m)"

definition eastOfUTC :: "(int \<Rightarrow> int) \<Rightarrow> bool" where
  \<comment> \<open>a host whose local time is UTC or ahead of it, by less than a day\<close>
  "eastOfUTC tz = (\<forall>t. 0 \<le> tz t \<and> tz t < 1440)"

declare idleLoop.simps [simp del]
declare showNat.simps [simp del]

section \<open>The time codec\<close>

lemma nonnegNum_toNumber: "nonnegNum (toNumber s)"
  by (simp add: toNumber_def nonnegNum_def Let_def)

lemma nonnegNum_numAt: "nonnegNum (numAt (map toNumber xs) i)"
  by (simp add: numAt_def at_def nonnegNum_toNumber) (simp add: nonnegNum_def)

lemma nonnegNum_nadd: "nonnegNum a \<Longrightarrow> nonnegNum b \<Longrightarrow> nonnegNum (nadd a b)"
  by (auto simp: nonnegNum_def nadd_def split: option.splits)

lemma nonnegNum_nmul: "nonnegNum a \<Longrightarrow> 0 \<le> k \<Longrightarrow> nonnegNum (nmul a (Some k))"
  by (auto simp: nonnegNum_def nmul_def split: option.splits)

lemma nonnegNum_applyModifier: "nonnegNum h \<Longrightarrow> nonnegNum (applyModifier m h)"
  by (auto simp: applyModifier_def Let_def nonnegNum_def nadd_def split: option.splits)

lemma parseToSeconds_nonneg: "parseToSeconds str = Some v \<Longrightarrow> 0 \<le> v"
proof -
  have "nonnegNum (parseToSeconds str)"
    unfolding parseToSeconds_def Let_def
    by (intro nonnegNum_nadd nonnegNum_nmul nonnegNum_applyModifier nonnegNum_numAt) simp_all
  then show "parseToSeconds str = Some v \<Longrightarrow> 0 \<le> v"
    by (simp add: nonnegNum_def)
qed

subsection \<open>Splitting, trimming and decimal digits\<close>

lemma split_not_Nil: "split sep s \<noteq> []"
  by (induction s) (auto split: list.splits)

lemma split_no_sep: "sep \<notin> set s \<Longrightarrow> split sep s = [s]"
  by (induction s) auto

lemma split_append_sep: "sep \<notin> set a \<Longrightarrow> split sep (a @ sep # rest) = a # split sep rest"
  by (induction a) (auto split: list.splits simp: split_not_Nil)

lemma trim_id:
  assumes "s \<noteq> []" "\<not> isWhiteSpace (hd s)" "\<not> isWhiteSpace (last s)"
  shows "trim s = s"
proof -
  from assms(1,2) have a: "dropWhile isWhiteSpace s = s"
    by (cases s) auto
  from assms(1,3) have b: "dropWhile isWhiteSpace (rev s) = rev s"
    by (cases "rev s") (auto simp: hd_rev [symmetric] simp del: hd_rev)
  show ?thesis by (simp add: trim_def a b)
qed

lemma trim_Nil: "trim [] = []"
  by (simp add: trim_def)

lemma isDigit_not_space: "isDigit c \<Longrightarrow> \<not> isWhiteSpace c"
  by (auto simp: isDigit_def isWhiteSpace_def)

lemma isDigit_lower: "isDigit c \<Longrightarrow> lowerChar c = c"
  by (auto simp: isDigit_def lowerChar_def Let_def)

lemma not_isDigit_sep:
  "\<not> isDigit (CHR '':'')" "\<not> isDigit (CHR '' '')" "\<not> isDigit (CHR '','')"
  by (simp_all add: isDigit_def)

lemma digits_no_sep:
  assumes "list_all isDigit s"
  shows "CHR '':'' \<notin> set s" "CHR '' '' \<notin> set s" "CHR '','' \<notin> set s"
  using assms not_isDigit_sep by (auto simp: list_all_iff)

lemma isDigit_digitChar: "n < 10 \<Longrightarrow> isDigit (digitChar n)"
  by (simp add: isDigit_def)

lemma digitVal_digitChar: "n < 10 \<Longrightarrow> digitVal (digitChar n) = n"
  by (simp add: digitVal_def)

lemma showNat_digits: "list_all isDigit (showNat n)"
proof (induction n rule: showNat.induct)
  case (1 n)
  show ?case
  proof (cases "n < 10")
    case True
    then show ?thesis by (subst showNat.simps) (simp add: isDigit_digitChar del: digitChar.simps)
  next
    case False
    with 1 show ?thesis
      by (subst showNat.simps) (simp add: isDigit_digitChar del: digitChar.simps)
  qed
qed

lemma showNat_not_Nil: "showNat n \<noteq> []"
  by (subst showNat.simps) simp

lemma showNat_value: "foldl (\<lambda>a c. 10 * a + digitVal c) 0 (showNat n) = n"
proof (induction n rule: showNat.induct)
  case (1 n)
  show ?case
  proof (cases "n < 10")
    case True
    then show ?thesis by (subst showNat.simps) (simp add: digitVal_digitChar del: digitChar.simps)
  next
    case False
    with 1 show ?thesis
      by (subst showNat.simps) (simp add: digitVal_digitChar del: digitChar.simps)
  qed
qed

lemma showNat_length:
  assumes "n < 100"
  shows "length (showNat n) \<le> 2"
proof -
  from assms have "n div 10 < 10" by simp
  then have "length (showNat (n div 10)) = 1"
    by (subst showNat.simps) simp
  then show ?thesis
    by (subst showNat.simps) simp
qed

lemma padStart2_digits: "list_all isDigit s \<Longrightarrow> list_all isDigit (padStart2 s)"
  by (auto simp: padStart2_def isDigit_def list_all_iff)

lemma padStart2_not_Nil: "s \<noteq> [] \<Longrightarrow> padStart2 s \<noteq> []"
  by (simp add: padStart2_def)

lemma zeros_value: "foldl (\<lambda>a c. 10 * a + digitVal c) 0 (replicate k (CHR ''0'')) = 0"
  by (induction k) (simp_all add: digitVal_def)

lemma padStart2_value:
  "foldl (\<lambda>a c. 10 * a + digitVal c) 0 (padStart2 s) = foldl (\<lambda>a c. 10 * a + digitVal c) 0 s"
  by (simp add: padStart2_def zeros_value)

lemma toNumber_digits:
  assumes "list_all isDigit s"
  shows "toNumber s = Some (int (foldl (\<lambda>a c. 10 * a + digitVal c) 0 s))"
proof (cases "s = []")
  case True
  then show ?thesis by (simp add: toNumber_def trim_Nil)
next
  case False
  with assms have "\<not> isWhiteSpace (hd s)" "\<not> isWhiteSpace (last s)"
    by (auto simp: list_all_iff isDigit_not_space)
  with False have "trim s = s" by (simp add: trim_id)
  with assms show ?thesis by (simp add: toNumber_def)
qed

subsection \<open>Formatting and decoding a duration\<close>

lemma lowerChar_colon: "lowerChar (CHR '':'') = CHR '':''"
  by (simp add: lowerChar_def)

lemma toLowerCase_id: "list_all (\<lambda>c. lowerChar c = c) s \<Longrightarrow> toLowerCase s = s"
  by (induction s) (simp_all add: toLowerCase_def)

lemma parseToSeconds_hms:
  assumes a: "list_all isDigit a" "a \<noteq> []"
    and b: "list_all isDigit b"
    and c: "list_all isDigit c" "c \<noteq> []"
  shows "parseToSeconds (a @ CHR '':'' # b @ CHR '':'' # c)
           = Some (decimal a * 3600 + decimal b * 60 + decimal c)"
proof -
  let ?str = "a @ CHR '':'' # b @ CHR '':'' # c"
  have hd_ok: "\<not> isWhiteSpace (hd ?str)"
    using a by (cases a) (auto simp: isDigit_not_space)
  have last_ok: "\<not> isWhiteSpace (last ?str)"
    using c by (auto simp: list_all_iff isDigit_not_space)
  have t: "trim ?str = ?str"
    using hd_ok last_ok by (intro trim_id) simp_all
  have l: "toLowerCase ?str = ?str"
    using a b c by (intro toLowerCase_id) (auto simp: list_all_iff isDigit_lower lowerChar_colon)
  have sp: "split (CHR '' '') ?str = [?str]"
    using a b c by (intro split_no_sep) (simp add: digits_no_sep)
  have na: "CHR '':'' \<notin> set a" and nb: "CHR '':'' \<notin> set b" and nc: "CHR '':'' \<notin> set c"
    using a b c by (simp_all add: digits_no_sep)
  have sc: "split (CHR '':'') ?str = [a, b, c]"
    by (simp add: split_append_sep [OF na] split_append_sep [OF nb] split_no_sep [OF nc])
  show ?thesis
    using a b c
    by (simp add: parseToSeconds_def t l sp sc at_def numAt_def applyModifier_def
        toNumber_digits decimal_def nadd_def nmul_def)
qed

lemma formatToTime_parts:
  assumes "0 \<le> v"
  shows "\<exists>a b c. formatToTime (Some v) = a @ CHR '':'' # b @ CHR '':'' # c
           \<and> list_all isDigit a \<and> a \<noteq> [] \<and> list_all isDigit b \<and> list_all isDigit c \<and> c \<noteq> []
           \<and> decimal a = v div 3600 \<and> decimal b = (v mod 3600) div 60
           \<and> decimal c = v mod 60"
proof -
  let ?a = "showNat (nat (v div 3600))"
  let ?b = "padStart2 (showNat (nat ((v mod 3600) div 60)))"
  let ?c = "padStart2 (showNat (nat (v mod 60)))"
  have "formatToTime (Some v) = ?a @ CHR '':'' # ?b @ CHR '':'' # ?c"
    using assms by (simp add: formatToTime_def Let_def)
  moreover have "list_all isDigit ?a" "?a \<noteq> []" "list_all isDigit ?b" "list_all isDigit ?c" "?c \<noteq> []"
    by (simp_all add: showNat_digits showNat_not_Nil padStart2_digits padStart2_not_Nil)
  moreover have "decimal ?a = v div 3600"
    using assms by (simp add: decimal_def showNat_value pos_imp_zdiv_nonneg_iff)
  moreover have "decimal ?b = (v mod 3600) div 60"
    using assms by (simp add: decimal_def padStart2_value showNat_value pos_imp_zdiv_nonneg_iff)
  moreover have "decimal ?c = v mod 60"
    using assms by (simp add: decimal_def padStart2_value showNat_value)
  ultimately show ?thesis by blast
qed

lemma parseToSeconds_formatToTime_nonneg:
  assumes "0 \<le> v"
  shows "parseToSeconds (formatToTime (Some v)) = Some v"
proof -
  from formatToTime_parts [OF assms] obtain a b c where
    f: "formatToTime (Some v) = a @ CHR '':'' # b @ CHR '':'' # c"
    and d: "list_all isDigit a" "a \<noteq> []" "list_all isDigit b" "list_all isDigit c" "c \<noteq> []"
    and v: "decimal a = v div 3600" "decimal b = (v mod 3600) div 60"
      "decimal c = v mod 60"
    by blast
  have "v mod 3600 mod 60 = v mod 60"
    by (simp add: mod_mod_cancel)
  then have "v mod 3600 div 60 * 60 + v mod 60 = v mod 3600"
    by (metis div_mult_mod_eq)
  then have "v div 3600 * 3600 + v mod 3600 div 60 * 60 + v mod 60 = v"
    by (simp add: add.assoc)
  then show ?thesis
    by (simp add: f parseToSeconds_hms [OF d] v)
qed

lemma formatToTime_clamp: "v < 0 \<Longrightarrow> formatToTime (Some v) = formatToTime (Some 0)"
  by (simp add: formatToTime_def)

lemma parseToSeconds_formatToTime:
  "parseToSeconds (formatToTime (Some v)) = Some (max 0 v)"
proof (cases "0 \<le> v")
  case True
  then show ?thesis by (simp add: parseToSeconds_formatToTime_nonneg max_def)
next
  case False
  then have "formatToTime (Some v) = formatToTime (Some 0)"
    by (simp add: formatToTime_clamp)
  with False show ?thesis by (simp add: parseToSeconds_formatToTime_nonneg max_def)
qed

lemma formatToTime_zero: "formatToTime (Some 0) = ''0:00:00''"
  by code_simp

section \<open>The idle-time loop on one shift\<close>

lemma idleLoop_done: "\<not> c < e \<Longrightarrow> idleLoop i c e = i"
  by (simp add: idleLoop.simps)

lemma idleLoop_inside:
  assumes "28800 \<le> s" "e \<le> 79200"
  shows "idleLoop i s e = i"
proof (cases "s < e")
  case True
  with assms have d: "s div 86400 = 0" by simp
  from True assms show ?thesis
    by (subst idleLoop.simps)
       (simp add: Let_def DAY_SECONDS_def HOURS_START_def HOURS_END_def d idleLoop_done)
next
  case False
  then show ?thesis by (simp add: idleLoop_done)
qed

lemma idleLoop_before:
  assumes "0 \<le> s" "s \<le> e" "e \<le> 28800"
  shows "idleLoop i s e = i + (e - s)"
proof (cases "s < e")
  case True
  with assms have d: "s div 86400 = 0" by simp
  from True assms show ?thesis
    by (subst idleLoop.simps)
       (simp add: Let_def DAY_SECONDS_def HOURS_START_def HOURS_END_def d idleLoop_done)
next
  case False
  with assms show ?thesis by (simp add: idleLoop_done)
qed

lemma idleLoop_after:
  assumes "79200 \<le> s" "s < 86400" "s \<le> e" "e \<le> 115200"
  shows "idleLoop i s e = i + (e - s)"
proof (cases "s < e")
  case True
  with assms have d: "s div 86400 = 0" by simp
  show ?thesis
  proof (cases "e \<le> 86400")
    case le: True
    from True le assms show ?thesis
      by (subst idleLoop.simps)
         (simp add: Let_def DAY_SECONDS_def HOURS_START_def HOURS_END_def d idleLoop_done)
  next
    case gt: False
    have step1: "idleLoop i s e = idleLoop (i + (86400 - s)) 86400 e"
      using True gt assms
      by (subst idleLoop.simps)
         (simp add: Let_def DAY_SECONDS_def HOURS_START_def HOURS_END_def d)
    have step2: "idleLoop j 86400 e = j + (e - 86400)" for j
      using gt assms
      by (subst idleLoop.simps)
         (simp add: Let_def DAY_SECONDS_def HOURS_START_def HOURS_END_def idleLoop_done)
    show ?thesis by (simp add: step1 step2)
  qed
next
  case False
  with assms show ?thesis by (simp add: idleLoop_done)
qed

lemma idleLoop_tails:
  assumes "0 \<le> s" "s \<le> 28800" "79200 \<le> e" "e \<le> 86400"
  shows "idleLoop i s e = i + (28800 - s) + (e - 79200)"
proof -
  from assms have d: "s div 86400 = 0" by simp
  from assms show ?thesis
    by (subst idleLoop.simps)
       (simp add: Let_def DAY_SECONDS_def HOURS_START_def HOURS_END_def d idleLoop_done)
qed

lemma getIdleTime_parsed:
  assumes "parseToSeconds startTime = Some s" "parseToSeconds endTime = Some e"
  shows "getIdleTime startTime endTime
           = formatToTime (Some (idleLoop 0 s (if e < s then e + 86400 else e)))"
  using assms by (simp add: getIdleTime_def wrapEnd_def nlt_def nadd_def DAY_SECONDS_def)

lemma getShiftDuration_parsed:
  assumes "parseToSeconds startTime = Some s" "parseToSeconds endTime = Some e"
  shows "getShiftDuration startTime endTime
           = formatToTime (Some ((if e < s then e + 86400 else e) - s))"
  using assms
  by (simp add: getShiftDuration_def wrapEnd_def nlt_def nadd_def nsub_def DAY_SECONDS_def)

text \<open>
  C7. Let the two clock strings decode to \<open>s\<close> and \<open>e\<close> seconds, and let \<open>e'\<close> be the end
  after the midnight-wrap adjustment (\<open>e + 86400\<close> when \<open>e < s\<close>). If the shift lies inside
  the delivery window, \<open>8:00 \<le> s\<close> and \<open>e' \<le> 22:00\<close>, the idle time is zero. If it lies
  outside the window, ending by 8:00 or starting at 22:00 or later and ending by 8:00 of
  the next day, the idle time is the full length \<open>e' - s\<close> of the shift, which is also
  what \<open>getShiftDuration\<close> returns. If it starts by 8:00 and ends at 22:00 or later on
  the same day, the idle time is the sum of the two tails, \<open>(8:00 - s) + (e - 22:00)\<close>.
\<close>

theorem getIdleTime_window:
  assumes "parseToSeconds startTime = Some s"
    and "parseToSeconds endTime = Some e"
    and "e' = (if e < s then e + 86400 else e)"
  shows "(28800 \<le> s \<and> e' \<le> 79200 \<longrightarrow> getIdleTime startTime endTime = ''0:00:00'')
       \<and> (e' \<le> 28800 \<or> (79200 \<le> s \<and> s < 86400 \<and> e' \<le> 115200)
            \<longrightarrow> getIdleTime startTime endTime = formatToTime (Some (e' - s))
              \<and> getShiftDuration startTime endTime = formatToTime (Some (e' - s)))
       \<and> (s \<le> 28800 \<and> s \<le> e \<and> 79200 \<le> e \<and> e \<le> 86400
            \<longrightarrow> getIdleTime startTime endTime
                  = formatToTime (Some ((28800 - s) + (e - 79200))))"
proof -
  have s0: "0 \<le> s" and e0: "0 \<le> e"
    using assms parseToSeconds_nonneg by blast+
  have se: "s \<le> e'" if "s < 86400 \<or> e' < 86400"
    using that assms(3) s0 e0 by (auto split: if_splits)
  have idle: "getIdleTime startTime endTime = formatToTime (Some (idleLoop 0 s e'))"
    using getIdleTime_parsed [OF assms(1,2)] assms(3) by simp
  have dur: "getShiftDuration startTime endTime = formatToTime (Some (e' - s))"
    using getShiftDuration_parsed [OF assms(1,2)] assms(3) by simp
  have inside: "getIdleTime startTime endTime = ''0:00:00''" if "28800 \<le> s" "e' \<le> 79200"
    using that by (simp add: idle idleLoop_inside formatToTime_zero)
  have outside: "getIdleTime startTime endTime = formatToTime (Some (e' - s))"
    if "e' \<le> 28800 \<or> (79200 \<le> s \<and> s < 86400 \<and> e' \<le> 115200)"
    using that
  proof
    assume a: "e' \<le> 28800"
    then have "s \<le> e'" using se by simp
    with s0 a show ?thesis by (simp add: idle idleLoop_before)
  next
    assume a: "79200 \<le> s \<and> s < 86400 \<and> e' \<le> 115200"
    then have "s \<le> e'" using se by simp
    with a show ?thesis by (simp add: idle idleLoop_after)
  qed
  have tails: "getIdleTime startTime endTime = formatToTime (Some ((28800 - s) + (e - 79200)))"
    if "s \<le> 28800" "s \<le> e" "79200 \<le> e" "e \<le> 86400"
  proof -
    from that assms(3) have "e' = e" by simp
    with that s0 show ?thesis by (simp add: idle idleLoop_tails)
  qed
  from inside outside dur tails show ?thesis by blast
qed

theorem getIdleTime_window_witness:
  "getIdleTime ''8:00:00 am'' ''5:00:00 pm'' = ''0:00:00''
   \<and> getIdleTime ''10:00:00 pm'' ''6:00:00 am'' = ''8:00:00''
   \<and> getShiftDuration ''10:00:00 pm'' ''6:00:00 am'' = ''8:00:00''
   \<and> getIdleTime ''5:00:00 am'' ''7:30:00 am'' = ''2:30:00''
   \<and> getIdleTime ''6:00:00 am'' ''11:00:00 pm'' = ''3:00:00''"
proof -
  have a1: "parseToSeconds ''8:00:00 am'' = Some 28800" by code_simp
  have a2: "parseToSeconds ''5:00:00 pm'' = Some 61200" by code_simp
  have b1: "parseToSeconds ''10:00:00 pm'' = Some 79200" by code_simp
  have b2: "parseToSeconds ''6:00:00 am'' = Some 21600" by code_simp
  have c2: "parseToSeconds ''11:00:00 pm'' = Some 82800" by code_simp
  have d1: "parseToSeconds ''5:00:00 am'' = Some 18000" by code_simp
  have d2: "parseToSeconds ''7:30:00 am'' = Some 27000" by code_simp
  have f: "formatToTime (Some ((28800 - 21600) + (82800 - 79200))) = ''3:00:00''" by code_simp
  have g: "formatToTime (Some (108000 - 79200)) = ''8:00:00''" by code_simp
  have h: "formatToTime (Some (27000 - 18000)) = ''2:30:00''" by code_simp
  from getIdleTime_window [OF a1 a2, of 61200]
  have "getIdleTime ''8:00:00 am'' ''5:00:00 pm'' = ''0:00:00''" by simp
  moreover from getIdleTime_window [OF b1 b2, of 108000] g
  have "getIdleTime ''10:00:00 pm'' ''6:00:00 am'' = ''8:00:00''
      \<and> getShiftDuration ''10:00:00 pm'' ''6:00:00 am'' = ''8:00:00''"
    by simp
  moreover from getIdleTime_window [OF d1 d2, of 27000] h
  have "getIdleTime ''5:00:00 am'' ''7:30:00 am'' = ''2:30:00''" by simp
  moreover from getIdleTime_window [OF b2 c2, of 82800] f
  have "getIdleTime ''6:00:00 am'' ''11:00:00 pm'' = ''3:00:00''" by simp
  ultimately show ?thesis by simp
qed

text \<open>
  C10. When the two clock strings decode to the same number of seconds, the shift duration
  and the idle time are both \<open>0:00:00\<close>: the end is not pushed past midnight and the loop
  does not run.
\<close>

theorem zero_length_shift:
  assumes "parseToSeconds startTime = Some n"
    and "parseToSeconds endTime = Some n"
  shows "getShiftDuration startTime endTime = ''0:00:00''
       \<and> getIdleTime startTime endTime = ''0:00:00''"
  using getShiftDuration_parsed [OF assms] getIdleTime_parsed [OF assms]
  by (simp add: idleLoop_done formatToTime_zero)

theorem zero_length_shift_witness:
  "getShiftDuration ''12:00:00 am'' ''0:00:00'' = ''0:00:00''
   \<and> getIdleTime ''12:00:00 am'' ''0:00:00'' = ''0:00:00''"
proof -
  have a: "parseToSeconds ''12:00:00 am'' = Some 0" by code_simp
  have b: "parseToSeconds ''0:00:00'' = Some 0" by code_simp
  from zero_length_shift [OF a b] show ?thesis .
qed

section \<open>The holiday window and the quota\<close>

lemma parseDate_range:
  assumes "parseDate s = Some (y, m, d)"
  shows "0 \<le> y \<and> 1 \<le> m \<and> m \<le> 12 \<and> 1 \<le> d \<and> d \<le> 31"
  using assms by (auto simp: parseDate_def Let_def decimal_def split: if_splits)

lemma EID_DATE_START_value: "EID_DATE_START = Some (20188 * msPerDay)"
  by code_simp

lemma EID_DATE_END_value: "EID_DATE_END = Some (20208 * msPerDay)"
  by code_simp

lemma month_cases:
  assumes "1 \<le> m" "m \<le> (12::int)"
  shows "m = 1 \<or> m = 2 \<or> m = 3 \<or> m = 4 \<or> m = 5 \<or> m = 6 \<or> m = 7 \<or> m = 8 \<or> m = 9 \<or> m = 10 \<or> m = 11 \<or> m = 12"
  using assms by arith

lemma monthStart_bounds:
  assumes "1 \<le> m" "m \<le> 12"
  shows "0 \<le> monthStart y m \<and> monthStart y m \<le> 335"
  using month_cases [OF assms] by (auto simp: monthStart_def)

lemma monthStart_2025:
  "monthStart 2025 1 = 0" "monthStart 2025 2 = 31" "monthStart 2025 3 = 59"
  "monthStart 2025 4 = 90" "monthStart 2025 5 = 120" "monthStart 2025 6 = 151"
  "monthStart 2025 7 = 181" "monthStart 2025 8 = 212" "monthStart 2025 9 = 243"
  "monthStart 2025 10 = 273" "monthStart 2025 11 = 304" "monthStart 2025 12 = 334"
  by (simp_all add: monthStart_def isLeapYear_def)

lemma dayFromYear_2025: "dayFromYear 2025 = 20089"
  by (simp add: dayFromYear_def)



lemma dayFromYear_before: "y \<le> 2024 \<Longrightarrow> dayFromYear y \<le> 19725"
proof -
  assume y: "y \<le> 2024"
  define q1 q2 q3 where "q1 = (y - 1969) div 4" and "q2 = (y - 1901) div 100"
    and "q3 = (y - 1601) div 400"
  have a: "4 * q1 \<le> y - 1969" unfolding q1_def by presburger
  have b: "y - 1901 - 99 \<le> 100 * q2" unfolding q2_def by presburger
  have c: "400 * q3 \<le> y - 1601" unfolding q3_def by presburger
  have "365 * y - 719050 + q1 - q2 + q3 \<le> 19725"
    using y a b c by linarith
  then show ?thesis by (simp add: dayFromYear_def q1_def q2_def q3_def algebra_simps)
qed

lemma dayFromYear_after: "2026 \<le> y \<Longrightarrow> 20452 \<le> dayFromYear y"
proof -
  assume y: "2026 \<le> y"
  define q1 q2 q3 where "q1 = (y - 1969) div 4" and "q2 = (y - 1901) div 100"
    and "q3 = (y - 1601) div 400"
  have a: "y - 1969 - 3 \<le> 4 * q1" unfolding q1_def by presburger
  have b: "100 * q2 \<le> y - 1901" unfolding q2_def by presburger
  have c: "y - 1601 - 399 \<le> 400 * q3" unfolding q3_def by presburger
  have "20452 \<le> 365 * y - 719050 + q1 - q2 + q3"
    using y a b c by linarith
  then show ?thesis by (simp add: dayFromYear_def q1_def q2_def q3_def algebra_simps)
qed

lemma makeDay_window:
  assumes "1 \<le> m" "m \<le> 12" "1 \<le> d" "d \<le> 31"
  shows "(20188 \<le> makeDay y m d \<and> makeDay y m d \<le> 20208)
         = (y = 2025 \<and> m = 4 \<and> 10 \<le> d \<and> d \<le> 30)"
proof -
  note ms = monthStart_bounds [OF assms(1,2), of y]
  consider "y \<le> 2024" | "y = 2025" | "2026 \<le> y" by arith
  then show ?thesis
  proof cases
    case 1
    from dayFromYear_before [OF 1] ms assms have "makeDay y m d < 20188"
      by (simp add: makeDay_def)
    with 1 show ?thesis by simp
  next
    case 2
    from month_cases [OF assms(1,2)] assms(3,4) show ?thesis
      unfolding 2 makeDay_def dayFromYear_2025
      by (elim disjE) (auto simp add: monthStart_2025)
  next
    case 3
    from dayFromYear_after [OF 3] ms assms have "20208 < makeDay y m d"
      by (simp add: makeDay_def)
    with 3 show ?thesis by simp
  qed
qed


lemma isEidDate_newDate: "isEidDate (newDate date) = inEidWindow date"
proof (cases "parseDate date")
  case None
  then show ?thesis by (simp add: isEidDate_def newDate_def inEidWindow_def nge_def)
next
  case (Some c)
  obtain y m d where c: "c = (y, m, d)" by (cases c) auto
  from parseDate_range Some c have r: "1 \<le> m" "m \<le> 12" "1 \<le> d" "d \<le> 31" by blast+
  have "isEidDate (newDate date) = (20188 \<le> makeDay y m d \<and> makeDay y m d \<le> 20208)"
    using Some c
    by (simp add: isEidDate_def newDate_def EID_DATE_START_value EID_DATE_END_value
        nge_def nle_def msPerDay_def)
  also have "\<dots> = (y = 2025 \<and> m = 4 \<and> 10 \<le> d \<and> d \<le> 30)"
    by (rule makeDay_window [OF r])
  finally show ?thesis using Some c by (simp add: inEidWindow_def)
qed

lemma metQuota_parsed:
  assumes "parseDate date = Some (y, m, d)"
    and "parseToSeconds activeTime = Some sec"
  shows "metQuota date activeTime
           = ((if y = 2025 \<and> m = 4 \<and> 10 \<le> d \<and> d \<le> 30 then 6 * 3600 else 8 * 3600 + 24 * 60)
                \<le> sec)"
  using assms
  by (simp add: metQuota_def Let_def isEidDate_newDate inEidWindow_def nge_def
      DAILY_MINIMUM_EID_def DAILY_MINIMUM_NORMAL_def)

lemma parseToSeconds_examples:
  "parseToSeconds ''6:30:00'' = Some 23400"
  "parseToSeconds ''6:00:00'' = Some 21600"
  "parseToSeconds ''5:59:59'' = Some 21599"
  "parseToSeconds ''8:24:00'' = Some 30240"
  "parseToSeconds ''8:23:59'' = Some 30239"
  by code_simp+

lemma parseDate_examples:
  "parseDate ''2025-04-15'' = Some (2025, 4, 15)"
  "parseDate ''2025-05-15'' = Some (2025, 5, 15)"
  "parseDate ''2025-04-10'' = Some (2025, 4, 10)"
  "parseDate ''2025-04-30'' = Some (2025, 4, 30)"
  "parseDate ''2025-04-09'' = Some (2025, 4, 9)"
  "parseDate ''2025-05-01'' = Some (2025, 5, 1)"
  "parseDate ''2024-04-15'' = Some (2024, 4, 15)"
  by code_simp+

text \<open>
  C6. For a date of the form \<open>yyyy-mm-dd\<close> and an active time that decodes to \<open>sec\<close>
  seconds, \<open>metQuota date activeTime\<close> holds exactly when \<open>sec\<close> is at least the applicable
  minimum: 6 hours when the date lies in the holiday window 2025-04-10 to 2025-04-30, both
  ends included, and 8 hours 24 minutes otherwise. The two examples of the specification
  evaluate as stated.
\<close>

theorem metQuota_threshold:
  assumes "parseDate date = Some (y, m, d)"
    and "parseToSeconds activeTime = Some sec"
  shows "metQuota date activeTime
           = ((if y = 2025 \<and> m = 4 \<and> 10 \<le> d \<and> d \<le> 30 then 6 * 3600 else 8 * 3600 + 24 * 60)
                \<le> sec)
       \<and> metQuota ''2025-04-15'' ''6:30:00'' = True
       \<and> metQuota ''2025-05-15'' ''6:30:00'' = False"
proof -
  have "metQuota ''2025-04-15'' ''6:30:00'' = True"
    by (simp add: metQuota_parsed [OF parseDate_examples(1) parseToSeconds_examples(1)])
  moreover have "metQuota ''2025-05-15'' ''6:30:00'' = False"
    by (simp add: metQuota_parsed [OF parseDate_examples(2) parseToSeconds_examples(1)])
  ultimately show ?thesis
    using metQuota_parsed [OF assms] by blast
qed

theorem metQuota_threshold_witness:
  "metQuota ''2025-04-10'' ''6:00:00'' = True
   \<and> metQuota ''2025-04-30'' ''6:00:00'' = True
   \<and> metQuota ''2025-04-15'' ''5:59:59'' = False
   \<and> metQuota ''2025-04-09'' ''6:00:00'' = False
   \<and> metQuota ''2025-05-01'' ''6:00:00'' = False
   \<and> metQuota ''2024-04-15'' ''6:00:00'' = False
   \<and> metQuota ''2025-05-01'' ''8:24:00'' = True
   \<and> metQuota ''2025-05-01'' ''8:23:59'' = False"
proof -
  note t = metQuota_threshold [THEN conjunct1]
  from t [OF parseDate_examples(3) parseToSeconds_examples(2)]
  have "metQuota ''2025-04-10'' ''6:00:00'' = True" by simp
  moreover from t [OF parseDate_examples(4) parseToSeconds_examples(2)]
  have "metQuota ''2025-04-30'' ''6:00:00'' = True" by simp
  moreover from t [OF parseDate_examples(1) parseToSeconds_examples(3)]
  have "metQuota ''2025-04-15'' ''5:59:59'' = False" by simp
  moreover from t [OF parseDate_examples(5) parseToSeconds_examples(2)]
  have "metQuota ''2025-04-09'' ''6:00:00'' = False" by simp
  moreover from t [OF parseDate_examples(6) parseToSeconds_examples(2)]
  have "metQuota ''2025-05-01'' ''6:00:00'' = False" by simp
  moreover from t [OF parseDate_examples(7) parseToSeconds_examples(2)]
  have "metQuota ''2024-04-15'' ''6:00:00'' = False" by simp
  moreover from t [OF parseDate_examples(6) parseToSeconds_examples(4)]
  have "metQuota ''2025-05-01'' ''8:24:00'' = True" by simp
  moreover from t [OF parseDate_examples(6) parseToSeconds_examples(5)]
  have "metQuota ''2025-05-01'' ''8:23:59'' = False" by simp
  ultimately show ?thesis by simp
qed

section \<open>The record an append produces\<close>

lemma addShiftRecord_result:
  assumes "addShiftRecord textFile obj = (file', Some r)"
  shows "r = makeRecord obj"
  using assms by (auto simp: addShiftRecord_def Let_def split: if_splits)

text \<open>
  C9. The record a successful \<open>addShiftRecord\<close> returns (and writes) has its active time
  computed from its own shift duration and idle time by \<open>getActiveTime\<close>, which is their
  difference in seconds clamped at 0 whenever both decode to numbers, and its quota flag
  is \<open>metQuota\<close> applied to its date and its active time.
\<close>

theorem addShiftRecord_derived:
  assumes "addShiftRecord textFile obj = (file', Some r)"
  shows "\<exists>sd idle act date.
           r_shiftDuration r = Some sd \<and> r_idleTime r = Some idle \<and> r_activeTime r = Some act
         \<and> r_date r = Some date
         \<and> act = getActiveTime sd idle
         \<and> r_metQuota r = Some (metQuota date act)
         \<and> (\<forall>d i. parseToSeconds sd = Some d \<and> parseToSeconds idle = Some i
                \<longrightarrow> parseToSeconds act = Some (max 0 (d - i)))"
proof -
  have r: "r = makeRecord obj"
    using assms by (rule addShiftRecord_result)
  define sd where "sd = getShiftDuration (o_startTime obj) (o_endTime obj)"
  define idle where "idle = getIdleTime (o_startTime obj) (o_endTime obj)"
  define act where "act = getActiveTime sd idle"
  have f: "r_shiftDuration r = Some sd" "r_idleTime r = Some idle" "r_activeTime r = Some act"
    "r_date r = Some (o_date obj)" "r_metQuota r = Some (metQuota (o_date obj) act)"
    by (simp_all add: r makeRecord_def Let_def sd_def idle_def act_def)
  have n: "parseToSeconds act = Some (max 0 (d - i))"
    if "parseToSeconds sd = Some d" "parseToSeconds idle = Some i" for d i
    using that by (simp add: act_def getActiveTime_def nsub_def parseToSeconds_formatToTime)
  from f n show ?thesis
    using act_def by blast
qed

theorem addShiftRecord_derived_witness:
  "\<exists>r. addShiftRecord None
             \<lparr>o_driverID = ''D2'', o_driverName = ''Omar'', o_date = ''2025-04-02'',
              o_startTime = ''6:00:00 am'', o_endTime = ''11:00:00 pm''\<rparr>
           = (Some ''D2,Omar,2025-04-02,6:00:00 am,11:00:00 pm,17:00:00,3:00:00,14:00:00,true,false'',
              Some r)
     \<and> (\<exists>sd idle act date.
           r_shiftDuration r = Some sd \<and> r_idleTime r = Some idle \<and> r_activeTime r = Some act
         \<and> r_date r = Some date
         \<and> act = getActiveTime sd idle
         \<and> r_metQuota r = Some (metQuota date act)
         \<and> (\<forall>d i. parseToSeconds sd = Some d \<and> parseToSeconds idle = Some i
                \<longrightarrow> parseToSeconds act = Some (max 0 (d - i))))"
proof -
  define r where "r = \<lparr>r_driverID = ''D2'', r_driverName = Some ''Omar'',
      r_date = Some ''2025-04-02'', r_startTime = Some ''6:00:00 am'',
      r_endTime = Some ''11:00:00 pm'', r_shiftDuration = Some ''17:00:00'',
      r_idleTime = Some ''3:00:00'', r_activeTime = Some ''14:00:00'',
      r_metQuota = Some True, r_hasBonus = Some False\<rparr>"
  have e: "addShiftRecord None
             \<lparr>o_driverID = ''D2'', o_driverName = ''Omar'', o_date = ''2025-04-02'',
              o_startTime = ''6:00:00 am'', o_endTime = ''11:00:00 pm''\<rparr>
           = (Some ''D2,Omar,2025-04-02,6:00:00 am,11:00:00 pm,17:00:00,3:00:00,14:00:00,true,false'',
              Some r)"
    unfolding r_def by code_simp
  from e addShiftRecord_derived [OF e] show ?thesis by blast
qed

section \<open>Required hours of a month\<close>

lemma strictEq_month: "strictEq (nadd (getUTCMonth d) (Some 1)) (Some m) = dateInMonth d m"
  by (auto simp: strictEq_def nadd_def getUTCMonth_def dateInMonth_def split: option.splits)

lemma uniqueDatesStep_eq:
  "uniqueDatesStep month driverID acc line =
     (if driverLineIn driverID month line
      then (if split (CHR '','') line ! 2 \<in> set acc then acc else acc @ [split (CHR '','') line ! 2])
      else acc)"
  by (auto simp: uniqueDatesStep_def driverLineIn_def Let_def strictEq_month)

lemma uniqueDates_fold:
  assumes "distinct acc"
  shows "distinct (foldl (uniqueDatesStep month driverID) acc ls)
       \<and> set (foldl (uniqueDatesStep month driverID) acc ls)
           = set acc \<union> set (map (\<lambda>line. split (CHR '','') line ! 2)
                               (filter (driverLineIn driverID month) ls))"
  using assms
proof (induction ls arbitrary: acc)
  case Nil
  then show ?case by simp
next
  case (Cons l ls)
  have d: "distinct (uniqueDatesStep month driverID acc l)"
    using Cons.prems by (simp add: uniqueDatesStep_eq)
  from Cons.IH [OF d] show ?case
    by (auto simp: uniqueDatesStep_eq)
qed

lemma getUniqueDates_set:
  "distinct (getUniqueDates content month driverID)
   \<and> set (getUniqueDates content month driverID) = workedDates content driverID month"
  using uniqueDates_fold [of "[]" month driverID "readLines content"]
  by (simp add: getUniqueDates_def workedDates_def)

lemma requiredStep_add: "requiredStep n tot d = tot + requiredOf n d"
  by (simp add: requiredStep_def requiredOf_def)

lemma required_fold: "foldl (requiredStep n) a ds = a + sum_list (map (requiredOf n) ds)"
  by (induction ds arbitrary: a) (simp_all add: requiredStep_add)

lemma getUTCDay_range: "getUTCDay d = Some x \<Longrightarrow> 0 \<le> x \<and> x < 7"
  by (auto simp: getUTCDay_def split: option.splits)

lemma weekday_cases:
  assumes "0 \<le> n" "n < (7::int)"
  shows "n = 0 \<or> n = 1 \<or> n = 2 \<or> n = 3 \<or> n = 4 \<or> n = 5 \<or> n = 6"
  using assms by arith

lemma DAYS_weekdayNames:
  assumes "0 \<le> n" "n < 7"
  shows "(DAYS dayOffStr = Some n) = (weekdayNames ! nat n = dayOffStr)"
  using weekday_cases [OF assms]
  by (elim disjE) (auto simp: DAYS_def weekdayNames_def)

lemma DAYS_range: "DAYS dayOffStr = Some n \<Longrightarrow> 0 \<le> n \<and> n < 7"
  by (auto simp: DAYS_def split: if_splits)

lemma strictEq_dayOff:
  "strictEq (getUTCDay d) (Some (dayOffNumOf dayOffStr)) = isDayOff dayOffStr d"
proof (cases "getUTCDay d")
  case None
  then show ?thesis by (simp add: strictEq_def isDayOff_def)
next
  case (Some x)
  from getUTCDay_range [OF Some] have r: "0 \<le> x" "x < 7" by simp_all
  show ?thesis
  proof (cases "DAYS dayOffStr")
    case None
    then have "weekdayNames ! nat x \<noteq> dayOffStr"
      using DAYS_weekdayNames [OF r, of dayOffStr] by simp
    with None Some r show ?thesis
      by (simp add: strictEq_def isDayOff_def dayOffNumOf_def)
  next
    case (Some n)
    have "(DAYS dayOffStr = Some x) = (weekdayNames ! nat x = dayOffStr)"
      by (rule DAYS_weekdayNames [OF r])
    with Some \<open>getUTCDay d = Some x\<close> r show ?thesis
      by (auto simp: strictEq_def isDayOff_def dayOffNumOf_def)
  qed
qed

lemma requiredOf_dayOff:
  "requiredOf (dayOffNumOf dayOffStr) d = (if isDayOff dayOffStr d then 0 else dailyMinimum d)"
  by (simp add: requiredOf_def strictEq_dayOff dailyMinimum_def isEidDate_newDate
      DAILY_MINIMUM_EID_def DAILY_MINIMUM_NORMAL_def)

lemma getTotalRequiredSeconds_sum:
  "getTotalRequiredSeconds (getUniqueDates content month driverID) (dayOffNumOf dayOffStr)
     = (\<Sum>date | date \<in> workedDates content driverID month \<and> \<not> isDayOff dayOffStr date.
          dailyMinimum date)"
proof -
  let ?ds = "getUniqueDates content month driverID"
  have "getTotalRequiredSeconds ?ds (dayOffNumOf dayOffStr)
          = sum_list (map (requiredOf (dayOffNumOf dayOffStr)) ?ds)"
    by (simp add: getTotalRequiredSeconds_def required_fold)
  also have "\<dots> = sum (requiredOf (dayOffNumOf dayOffStr)) (set ?ds)"
    using getUniqueDates_set [of content month driverID]
    by (simp add: sum_list_distinct_conv_sum_set)
  also have "\<dots> = (\<Sum>date \<in> workedDates content driverID month.
                       if \<not> isDayOff dayOffStr date then dailyMinimum date else 0)"
    using getUniqueDates_set [of content month driverID]
    by (auto simp: requiredOf_dayOff intro: sum.cong)
  also have "\<dots> = (\<Sum>date | date \<in> workedDates content driverID month \<and> \<not> isDayOff dayOffStr date.
                       dailyMinimum date)"
    by (simp add: sum.inter_filter workedDates_def)
  finally show ?thesis .
qed

lemma getDayOffLines_find:
  "getDayOffLines ls driverID =
     (case find (\<lambda>line. hd (split (CHR '','') line) = driverID) ls of
        None \<Rightarrow> Inr []
      | Some line \<Rightarrow>
          (case at (split (CHR '','') line) 1 of
             None \<Rightarrow> Inl TypeError
           | Some p \<Rightarrow> Inr (toLowerCase (trim p))))"
  by (induction ls) (simp_all add: Let_def)

lemma getDayOff_rateLine:
  "getDayOff rateContent driverID =
     (case rateLineOf rateContent driverID of
        None \<Rightarrow> Inr []
      | Some line \<Rightarrow>
          (case at (split (CHR '','') line) 1 of
             None \<Rightarrow> Inl TypeError
           | Some p \<Rightarrow> Inr (toLowerCase (trim p))))"
  by (simp add: getDayOff_def rateLineOf_def getDayOffLines_find)

lemma isDayOff_empty: "\<not> isDayOff [] date"
proof
  assume "isDayOff [] date"
  then obtain n where "0 \<le> n" "n < 7" "weekdayNames ! nat n = []"
    by (auto simp: isDayOff_def split: option.splits)
  with weekday_cases [of n] show False
    by (auto simp: weekdayNames_def)
qed

lemma getRequiredHoursPerMonth_dayOff:
  assumes "getDayOff rateContent driverID = Inr dayOffStr"
  shows "getRequiredHoursPerMonth (Some content) (Some rateContent) bonusCount driverID month
        = Inr (formatToTime (Some (max 0
            ((\<Sum>date | date \<in> workedDates content driverID month \<and> \<not> isDayOff dayOffStr date.
                dailyMinimum date)
             - (case bonusCount of None \<Rightarrow> 0 | Some b \<Rightarrow> b) * (2 * 3600)))))"
  by (simp add: getRequiredHoursPerMonth_def assms Let_def getTotalRequiredSeconds_sum max_def
      mult.commute)

text \<open>
  C4. Let both files be present and let every record of the driver carry a date of the
  form \<open>yyyy-mm-dd\<close>. The driver's day-off name is the second field, trimmed and in lower
  case, of the first line of the rate file whose first field is the driver's ID. Then
  \<open>getRequiredHoursPerMonth\<close> is the formatted sum, over the distinct dates of the driver's
  records in the target month that do not fall on the day-off weekday, of 6 hours for a
  date inside the holiday window and 8 hours 24 minutes otherwise, less two hours per
  bonus (a \<open>NaN\<close> bonus count reads as 0), clamped at zero. When no line of the rate file is
  the driver's, no date is exempt and the sum ranges over all those dates.
\<close>

theorem getRequiredHoursPerMonth_sum:
  assumes "list_all isoDated (filter (driverRecord driverID) (readLines content))"
  shows
   "(rateLineOf rateContent driverID = None \<longrightarrow>
      getRequiredHoursPerMonth (Some content) (Some rateContent) bonusCount driverID month
        = Inr (formatToTime (Some (max 0
            ((\<Sum>date \<in> workedDates content driverID month. dailyMinimum date)
             - (case bonusCount of None \<Rightarrow> 0 | Some b \<Rightarrow> b) * (2 * 3600))))))
  \<and> (rateLineOf rateContent driverID = Some line \<and> at (split (CHR '','') line) 1 = Some p \<longrightarrow>
      getRequiredHoursPerMonth (Some content) (Some rateContent) bonusCount driverID month
        = Inr (formatToTime (Some (max 0
            ((\<Sum>date | date \<in> workedDates content driverID month
                          \<and> \<not> isDayOff (toLowerCase (trim p)) date.
                dailyMinimum date)
             - (case bonusCount of None \<Rightarrow> 0 | Some b \<Rightarrow> b) * (2 * 3600))))))"
proof (intro conjI impI)
  assume "rateLineOf rateContent driverID = None"
  then have "getDayOff rateContent driverID = Inr []"
    by (simp add: getDayOff_rateLine)
  from getRequiredHoursPerMonth_dayOff [OF this]
  show "getRequiredHoursPerMonth (Some content) (Some rateContent) bonusCount driverID month
        = Inr (formatToTime (Some (max 0
            ((\<Sum>date \<in> workedDates content driverID month. dailyMinimum date)
             - (case bonusCount of None \<Rightarrow> 0 | Some b \<Rightarrow> b) * (2 * 3600)))))"
    by (simp add: isDayOff_empty)
next
  assume "rateLineOf rateContent driverID = Some line \<and> at (split (CHR '','') line) 1 = Some p"
  then have "getDayOff rateContent driverID = Inr (toLowerCase (trim p))"
    by (simp add: getDayOff_rateLine)
  from getRequiredHoursPerMonth_dayOff [OF this]
  show "getRequiredHoursPerMonth (Some content) (Some rateContent) bonusCount driverID month
        = Inr (formatToTime (Some (max 0
            ((\<Sum>date | date \<in> workedDates content driverID month
                          \<and> \<not> isDayOff (toLowerCase (trim p)) date.
                dailyMinimum date)
             - (case bonusCount of None \<Rightarrow> 0 | Some b \<Rightarrow> b) * (2 * 3600)))))" .
qed

theorem getRequiredHoursPerMonth_sum_witness:
  "list_all isoDated (filter (driverRecord ''D1'')
      (readLines (''D1,Ali,2025-04-11,8:00:00 am,5:00:00 pm,9:00:00,0:00:00,9:00:00,true,false''
         @ [CHR 0x0A] @ ''D1,Ali,2025-04-07,8:00:00 am,5:00:00 pm,9:00:00,0:00:00,9:00:00,true,false''
         @ [CHR 0x0A] @ ''D2,Omar,2025-04-08,8:00:00 am,5:00:00 pm,9:00:00,0:00:00,9:00:00,true,false''
         @ [CHR 0x0A] @ ''D1,Ali,2025-04-15,8:00:00 am,5:00:00 pm,9:00:00,0:00:00,9:00:00,true,true'')))
   \<and> rateLineOf (''D2,Monday,20000,1'' @ [CHR 0x0A] @ ''D1, Friday,18500,2'') ''D1''
        = Some ''D1, Friday,18500,2''
   \<and> at (split (CHR '','') ''D1, Friday,18500,2'') 1 = Some '' Friday''
   \<and> getRequiredHoursPerMonth
        (Some (''D1,Ali,2025-04-11,8:00:00 am,5:00:00 pm,9:00:00,0:00:00,9:00:00,true,false''
         @ [CHR 0x0A] @ ''D1,Ali,2025-04-07,8:00:00 am,5:00:00 pm,9:00:00,0:00:00,9:00:00,true,false''
         @ [CHR 0x0A] @ ''D2,Omar,2025-04-08,8:00:00 am,5:00:00 pm,9:00:00,0:00:00,9:00:00,true,false''
         @ [CHR 0x0A] @ ''D1,Ali,2025-04-15,8:00:00 am,5:00:00 pm,9:00:00,0:00:00,9:00:00,true,true''))
        (Some (''D2,Monday,20000,1'' @ [CHR 0x0A] @ ''D1, Friday,18500,2''))
        (Some 1) ''D1'' 4
      = Inr ''12:24:00''
   \<and> rateLineOf ''D2,Monday,20000,1'' ''D1'' = None
   \<and> getRequiredHoursPerMonth
        (Some (''D1,Ali,2025-04-11,8:00:00 am,5:00:00 pm,9:00:00,0:00:00,9:00:00,true,false''
         @ [CHR 0x0A] @ ''D1,Ali,2025-04-07,8:00:00 am,5:00:00 pm,9:00:00,0:00:00,9:00:00,true,false''
         @ [CHR 0x0A] @ ''D2,Omar,2025-04-08,8:00:00 am,5:00:00 pm,9:00:00,0:00:00,9:00:00,true,false''
         @ [CHR 0x0A] @ ''D1,Ali,2025-04-15,8:00:00 am,5:00:00 pm,9:00:00,0:00:00,9:00:00,true,true''))
        (Some ''D2,Monday,20000,1'')
        (Some 1) ''D1'' 4
      = Inr ''18:24:00''"
proof -
  define content where "content =
      ''D1,Ali,2025-04-11,8:00:00 am,5:00:00 pm,9:00:00,0:00:00,9:00:00,true,false''
         @ [CHR 0x0A] @ ''D1,Ali,2025-04-07,8:00:00 am,5:00:00 pm,9:00:00,0:00:00,9:00:00,true,false''
         @ [CHR 0x0A] @ ''D2,Omar,2025-04-08,8:00:00 am,5:00:00 pm,9:00:00,0:00:00,9:00:00,true,false''
         @ [CHR 0x0A] @ ''D1,Ali,2025-04-15,8:00:00 am,5:00:00 pm,9:00:00,0:00:00,9:00:00,true,true''"
  define rates where "rates = ''D2,Monday,20000,1'' @ [CHR 0x0A] @ ''D1, Friday,18500,2''"
  have iso: "list_all isoDated (filter (driverRecord ''D1'') (readLines content))"
    unfolding content_def by code_simp
  have line: "rateLineOf rates ''D1'' = Some ''D1, Friday,18500,2''"
    unfolding rates_def by code_simp
  have field: "at (split (CHR '','') ''D1, Friday,18500,2'') 1 = Some '' Friday''"
    by code_simp
  have none: "rateLineOf ''D2,Monday,20000,1'' ''D1'' = None"
    by code_simp
  have name: "toLowerCase (trim '' Friday'') = ''friday''"
    by code_simp
  have dates: "workedDates content ''D1'' 4 = {''2025-04-11'', ''2025-04-07'', ''2025-04-15''}"
    unfolding content_def by code_simp
  have off: "isDayOff ''friday'' ''2025-04-11''" "\<not> isDayOff ''friday'' ''2025-04-07''"
    "\<not> isDayOff ''friday'' ''2025-04-15''"
    by code_simp+
  have mins: "dailyMinimum ''2025-04-11'' = 21600" "dailyMinimum ''2025-04-07'' = 30240"
    "dailyMinimum ''2025-04-15'' = 21600"
    by code_simp+
  have kept: "{date \<in> workedDates content ''D1'' 4. \<not> isDayOff ''friday'' date}
                = {''2025-04-07'', ''2025-04-15''}"
    using off by (auto simp: dates)
  have f1: "formatToTime (Some (max 0 (30240 + 21600 - 1 * (2 * 3600)))) = ''12:24:00''"
    by code_simp
  have f2: "formatToTime (Some (max 0 (21600 + 30240 + 21600 - 1 * (2 * 3600)))) = ''18:24:00''"
    by code_simp
  note t = getRequiredHoursPerMonth_sum [OF iso]
  from t [where rateContent = rates and line = "''D1, Friday,18500,2''" and p = "'' Friday''"
      and bonusCount = "Some 1" and month = 4] line field
  have "getRequiredHoursPerMonth (Some content) (Some rates) (Some 1) ''D1'' 4
          = Inr (formatToTime (Some (max 0
              ((\<Sum>date | date \<in> workedDates content ''D1'' 4 \<and> \<not> isDayOff ''friday'' date.
                  dailyMinimum date) - 1 * (2 * 3600)))))"
    by (simp add: name)
  then have r1: "getRequiredHoursPerMonth (Some content) (Some rates) (Some 1) ''D1'' 4
          = Inr ''12:24:00''"
    using f1 by (simp add: kept mins)
  from t [where rateContent = "''D2,Monday,20000,1''" and bonusCount = "Some 1" and month = 4] none
  have "getRequiredHoursPerMonth (Some content) (Some ''D2,Monday,20000,1'') (Some 1) ''D1'' 4
          = Inr (formatToTime (Some (max 0
              ((\<Sum>date \<in> workedDates content ''D1'' 4. dailyMinimum date) - 1 * (2 * 3600)))))"
    by simp
  then have r2: "getRequiredHoursPerMonth (Some content) (Some ''D2,Monday,20000,1'') (Some 1) ''D1'' 4
          = Inr ''18:24:00''"
    using f2 by (simp add: dates mins)
  show ?thesis
    using iso line field r1 none r2
    unfolding content_def rates_def by blast
qed

section \<open>Rejecting a duplicate pair\<close>

subsection \<open>Lines of a file\<close>

lemma split_parts_no_sep: "x \<in> set (split sep s) \<Longrightarrow> sep \<notin> set x"
  by (induction s arbitrary: x) (auto split: if_splits list.splits)

lemma split_parts_subset: "x \<in> set (split sep s) \<Longrightarrow> set x \<subseteq> set s"
proof (induction s arbitrary: x)
  case Nil
  then show ?case by simp
next
  case (Cons a s)
  show ?case
  proof (cases "a = sep")
    case True
    with Cons.prems have "x = [] \<or> x \<in> set (split sep s)" by simp
    with Cons.IH show ?thesis by auto
  next
    case False
    obtain p ps where ps: "split sep s = p # ps"
      using split_not_Nil [of sep s] by (cases "split sep s") auto
    with False Cons.prems have "x = a # p \<or> x \<in> set ps" by simp
    moreover have "set p \<subseteq> set s" using Cons.IH [of p] ps by simp
    moreover have "x \<in> set ps \<Longrightarrow> set x \<subseteq> set s" using Cons.IH [of x] ps by simp
    ultimately show ?thesis by auto
  qed
qed

lemma hd_split: "hd (split sep s) = takeWhile (\<lambda>c. c \<noteq> sep) s"
  by (induction s) (auto split: list.splits simp: split_not_Nil)

lemma join_Cons: "join sep (x # xs) = (if xs = [] then x else x @ sep # join sep xs)"
  by (cases xs) simp_all

lemma split_join:
  assumes "xs \<noteq> []" "\<forall>x\<in>set xs. sep \<notin> set x"
  shows "split sep (join sep xs) = xs"
  using assms
proof (induction sep xs rule: join.induct)
  case (1 sep)
  then show ?case by simp
next
  case (2 sep x)
  then show ?case by (simp add: split_no_sep)
next
  case (3 sep x y ys)
  then show ?case by (simp add: split_append_sep)
qed

lemma set_join: "set (join sep xs) \<subseteq> (\<Union>x\<in>set xs. set x) \<union> {sep}"
  by (induction sep xs rule: join.induct) auto

lemma join_not_Nil: "xs \<noteq> [] \<Longrightarrow> last xs \<noteq> [] \<Longrightarrow> join sep xs \<noteq> []"
  by (induction xs) (auto simp: join_Cons)

lemma last_join:
  assumes "xs \<noteq> []" "last xs \<noteq> []"
  shows "last (join sep xs) = last (last xs)"
  using assms
proof (induction xs)
  case Nil
  then show ?case by simp
next
  case (Cons x xs)
  show ?case
  proof (cases "xs = []")
    case True
    then show ?thesis by simp
  next
    case False
    with Cons.prems have l: "last xs \<noteq> []" by simp
    from join_not_Nil [OF False l] Cons.IH [OF False l] False show ?thesis
      by (simp add: join_Cons)
  qed
qed

lemma trim_keep_end:
  assumes "s \<noteq> []" "\<not> isWhiteSpace (last s)"
  shows "trim s = dropWhile isWhiteSpace s"
proof -
  let ?t = "dropWhile isWhiteSpace s"
  from assms have m: "last s \<in> set s" by simp
  from dropWhile_last [of "last s" s isWhiteSpace, OF m assms(2)] have l: "last ?t = last s" .
  from m assms(2) have n: "?t \<noteq> []" by auto
  from n l assms(2) have "\<not> isWhiteSpace (hd (rev ?t))"
    by (simp add: hd_rev)
  with n have "dropWhile isWhiteSpace (rev ?t) = rev ?t"
    by (cases "rev ?t") auto
  then show ?thesis by (simp add: trim_def)
qed

lemma not_space_comma: "\<not> isWhiteSpace (CHR '','')"
  by (simp add: isWhiteSpace_def)

lemma readLines_join:
  assumes "\<forall>x\<in>set (l # ls). CHR 0x0A \<notin> set x \<and> CHR '','' \<in> set x \<and> \<not> isWhiteSpace (last x)"
  shows "readLines (join (CHR 0x0A) (l # ls)) = dropWhile isWhiteSpace l # ls"
proof -
  let ?s = "join (CHR 0x0A) (l # ls)"
  let ?l' = "dropWhile isWhiteSpace l"
  have ne: "\<forall>x\<in>set (l # ls). x \<noteq> []"
    using assms by auto
  then have lne: "last (l # ls) \<noteq> []"
    by (metis last_in_set list.distinct(1))
  have sne: "?s \<noteq> []"
    using ne by (simp add: join_Cons)
  have "last ?s = last (last (l # ls))"
    by (rule last_join [OF _ lne]) simp
  moreover have "\<not> isWhiteSpace (last (last (l # ls)))"
    using assms by (metis last_in_set list.distinct(1))
  ultimately have t: "trim ?s = dropWhile isWhiteSpace ?s"
    using sne by (simp add: trim_keep_end)
  have c: "CHR '','' \<in> set l" using assms by simp
  have d: "dropWhile isWhiteSpace ?s = join (CHR 0x0A) (?l' # ls)"
    using dropWhile_append1 [of "CHR '',''" l isWhiteSpace, OF c not_space_comma] by (simp add: join_Cons)
  have l'ne: "?l' \<noteq> []"
    using c not_space_comma by auto
  have nl: "\<forall>x\<in>set (?l' # ls). CHR 0x0A \<notin> set x"
    using assms by (auto dest: set_dropWhileD)
  have "split (CHR 0x0A) (join (CHR 0x0A) (?l' # ls)) = ?l' # ls"
    by (rule split_join [OF _ nl]) simp
  moreover have "filter (\<lambda>x. x \<noteq> []) (?l' # ls) = ?l' # ls"
    using l'ne ne by (simp add: filter_id_conv)
  ultimately show ?thesis
    by (simp add: readLines_def t d)
qed

subsection \<open>Printing a record and reading it back\<close>

lemma formatRecord_shape:
  "\<exists>rest. formatRecord r = r_driverID r @ CHR '','' # rest"
  by (simp add: formatRecord_def printedFields_def)

lemma comma_in_formatRecord: "CHR '','' \<in> set (formatRecord r)"
  using formatRecord_shape [of r] by auto

lemma boolOf_last: "\<not> isWhiteSpace (last (boolOf b)) \<and> boolOf b \<noteq> []"
  by (cases b) (simp_all add: boolOf_def isWhiteSpace_def)

lemma last_formatRecord: "\<not> isWhiteSpace (last (formatRecord r))"
proof -
  have "last (formatRecord r) = last (last (printedFields r))"
    unfolding formatRecord_def
    by (rule last_join) (simp_all add: printedFields_def boolOf_last)
  then show ?thesis by (simp add: printedFields_def boolOf_last)
qed

lemma formatRecord_no_newline:
  assumes "plainRecord r"
  shows "CHR 0x0A \<notin> set (formatRecord r)"
proof
  assume "CHR 0x0A \<in> set (formatRecord r)"
  with set_join [of "CHR '',''" "printedFields r"]
  have "\<exists>x\<in>set (printedFields r). CHR 0x0A \<in> set x"
    by (auto simp: formatRecord_def)
  with assms show False
    by (auto simp: plainRecord_def list_all_iff noSeparator_def)
qed

lemma split_formatRecord:
  assumes "plainRecord r"
  shows "split (CHR '','') (formatRecord r) = printedFields r"
  unfolding formatRecord_def
  using assms
  by (intro split_join) (auto simp: plainRecord_def list_all_iff noSeparator_def printedFields_def)

lemma parseRecord_formatRecord:
  assumes "plainRecord r"
  shows "r_driverID (parseRecord (formatRecord r)) = r_driverID r"
    and "r_date (parseRecord (formatRecord r)) = Some (strOf (r_date r))"
  by (simp_all add: parseRecord_def split_formatRecord [OF assms] printedFields_def at_def)

lemma formatRecord_no_leading_space:
  assumes "noLeadingSpace (r_driverID r)"
  shows "dropWhile isWhiteSpace (formatRecord r) = formatRecord r"
proof -
  obtain rest where f: "formatRecord r = r_driverID r @ CHR '','' # rest"
    using formatRecord_shape by blast
  show ?thesis
  proof (cases "r_driverID r")
    case Nil
    with f show ?thesis by (simp add: not_space_comma)
  next
    case (Cons c cs)
    with assms f show ?thesis by (simp add: noLeadingSpace_def)
  qed
qed

lemma readLines_no_newline:
  assumes "l \<in> set (readLines content)"
  shows "CHR 0x0A \<notin> set l"
  using assms by (auto simp: readLines_def dest: split_parts_no_sep)

lemma noSeparator_undefined: "noSeparator ''undefined''"
  by (simp add: noSeparator_def)

lemma noSeparator_part:
  assumes "p \<in> set (split (CHR '','') l)" "CHR 0x0A \<notin> set l"
  shows "noSeparator p"
  using assms split_parts_no_sep [of p "CHR '',''" l] split_parts_subset [of p "CHR '',''" l]
  by (auto simp: noSeparator_def)

lemma noSeparator_at:
  assumes "CHR 0x0A \<notin> set l"
  shows "noSeparator (strOf (at (split (CHR '','') l) i))"
proof (cases "i < length (split (CHR '','') l)")
  case True
  then have "split (CHR '','') l ! i \<in> set (split (CHR '','') l)" by simp
  then have "noSeparator (split (CHR '','') l ! i)"
    using assms by (rule noSeparator_part)
  with True show ?thesis
    by (simp add: at_def strOf_def)
next
  case False
  then show ?thesis by (simp add: at_def strOf_def noSeparator_undefined)
qed

lemma plainRecord_parseRecord:
  assumes "CHR 0x0A \<notin> set l"
  shows "plainRecord (parseRecord l)"
proof -
  have "hd (split (CHR '','') l) \<in> set (split (CHR '','') l)"
    by (simp add: split_not_Nil)
  then have "noSeparator (hd (split (CHR '','') l))"
    using assms by (rule noSeparator_part)
  then show ?thesis
    using noSeparator_at [OF assms]
    by (simp add: plainRecord_def printedFields_def parseRecord_def Let_def
        strOf_def boolOf_def noSeparator_undefined)
qed

lemma not_isDigit_newline: "\<not> isDigit (CHR 0x0A)"
  by (simp add: isDigit_def)

lemma noSeparator_digits: "list_all isDigit s \<Longrightarrow> noSeparator s"
  using not_isDigit_sep(3) not_isDigit_newline by (auto simp: noSeparator_def list_all_iff)

lemma noSeparator_formatToTime: "noSeparator (formatToTime x)"
proof (cases x)
  case None
  then show ?thesis by (simp add: formatToTime_def noSeparator_def)
next
  case (Some v)
  have f: "formatToTime (Some v) = formatToTime (Some (max 0 v))"
    by (simp add: formatToTime_def max_def)
  from formatToTime_parts [of "max 0 v"] obtain a b c where
    "formatToTime (Some (max 0 v)) = a @ CHR '':'' # b @ CHR '':'' # c"
    "list_all isDigit a" "list_all isDigit b" "list_all isDigit c"
    by auto
  then show ?thesis
    using noSeparator_digits [of a] noSeparator_digits [of b] noSeparator_digits [of c]
    by (simp add: Some f noSeparator_def)
qed

lemma getIdleTime_formatted: "\<exists>x. getIdleTime a b = formatToTime x"
  by (auto simp: getIdleTime_def Let_def split: option.splits)

lemma noSeparator_boolOf: "noSeparator (boolOf b)"
  by (cases b) (simp_all add: boolOf_def noSeparator_def)

lemma plainRecord_makeRecord:
  assumes "plainFields obj"
  shows "plainRecord (makeRecord obj)"
proof -
  obtain x where "getIdleTime (o_startTime obj) (o_endTime obj) = formatToTime x"
    using getIdleTime_formatted by blast
  then have "noSeparator (getIdleTime (o_startTime obj) (o_endTime obj))"
    by (simp add: noSeparator_formatToTime)
  with assms show ?thesis
    by (simp add: plainRecord_def printedFields_def makeRecord_def Let_def plainFields_def
        strOf_def noSeparator_boolOf getShiftDuration_def getActiveTime_def
        noSeparator_formatToTime)
qed

subsection \<open>The sort keeps the records\<close>

lemma set_insertRecord: "set (insertRecord x ys) = insert x (set ys)"
  by (induction ys) auto

lemma set_sortRecords: "set (sortRecords rs) = set rs"
  by (induction rs) (simp_all add: sortRecords_def set_insertRecord)

lemma count_insertRecord:
  "length (filter P (insertRecord x ys)) = length (filter P (x # ys))"
  by (induction ys) auto

lemma count_sortRecords: "length (filter P (sortRecords rs)) = length (filter P rs)"
  by (induction rs) (simp_all add: sortRecords_def count_insertRecord)

subsection \<open>The file a successful append writes\<close>

lemma addShiftRecord_written:
  assumes "addShiftRecord textFile obj = (file', Some r)"
  shows "\<not> list_ex (isDuplicate obj)
             (map parseRecord (readLines (case textFile of None \<Rightarrow> [] | Some c \<Rightarrow> c)))"
    and "file' = Some (join (CHR 0x0A) (map formatRecord
           (sortRecords (map parseRecord (readLines (case textFile of None \<Rightarrow> [] | Some c \<Rightarrow> c))
                         @ [makeRecord obj]))))"
  using assms by (auto simp: addShiftRecord_def Let_def split: if_splits)

lemma readLines_written:
  assumes "\<forall>r\<in>set (s # rest). plainRecord r"
  shows "readLines (join (CHR 0x0A) (map formatRecord (s # rest)))
           = dropWhile isWhiteSpace (formatRecord s) # map formatRecord rest"
proof -
  have "\<forall>x\<in>set (formatRecord s # map formatRecord rest).
          CHR 0x0A \<notin> set x \<and> CHR '','' \<in> set x \<and> \<not> isWhiteSpace (last x)"
    using assms by (auto simp: formatRecord_no_newline comma_in_formatRecord last_formatRecord)
  from readLines_join [OF this] show ?thesis by simp
qed

lemma isDuplicate_reread:
  assumes "plainRecord r"
  shows "isDuplicate obj (parseRecord (formatRecord r))
           = (r_driverID r = o_driverID obj \<and> strOf (r_date r) = o_date obj)"
  by (auto simp: isDuplicate_def parseRecord_formatRecord [OF assms])

lemma isDuplicate_makeRecord:
  "r_driverID (makeRecord obj) = o_driverID obj \<and> strOf (r_date (makeRecord obj)) = o_date obj"
  by (simp add: makeRecord_def Let_def strOf_def)

lemma written_has_duplicate:
  assumes p: "plainFields obj"
    and w: "addShiftRecord textFile obj = (Some content', Some r)"
  shows "list_ex (isDuplicate obj) (map parseRecord (readLines content'))"
proof -
  let ?recs = "map parseRecord (readLines (case textFile of None \<Rightarrow> [] | Some c \<Rightarrow> c))"
  let ?new = "makeRecord obj"
  let ?sorted = "sortRecords (?recs @ [?new])"
  have c: "content' = join (CHR 0x0A) (map formatRecord ?sorted)"
    using addShiftRecord_written(2) [OF w] by simp
  have plain: "\<forall>r\<in>set ?sorted. plainRecord r"
    using p by (auto simp: set_sortRecords plainRecord_makeRecord
        plainRecord_parseRecord readLines_no_newline)
  have mem: "?new \<in> set ?sorted"
    by (simp add: set_sortRecords)
  then obtain s rest where sr: "?sorted = s # rest"
    by (cases ?sorted) auto
  have lines: "readLines content' = dropWhile isWhiteSpace (formatRecord s) # map formatRecord rest"
    using plain unfolding c sr by (intro readLines_written) simp
  have newplain: "plainRecord ?new" using p by (rule plainRecord_makeRecord)
  have dup: "isDuplicate obj (parseRecord (formatRecord ?new))"
    by (simp add: isDuplicate_reread [OF newplain] isDuplicate_makeRecord)
  from mem sr have "?new = s \<or> ?new \<in> set rest" by auto
  then show ?thesis
  proof
    assume e: "?new = s"
    have "noLeadingSpace (r_driverID ?new)"
      using p by (simp add: plainFields_def makeRecord_def Let_def)
    then have "dropWhile isWhiteSpace (formatRecord s) = formatRecord ?new"
      unfolding e [symmetric] by (rule formatRecord_no_leading_space)
    with dup show ?thesis by (simp add: lines)
  next
    assume "?new \<in> set rest"
    with dup show ?thesis
      by (auto simp: lines list_ex_iff)
  qed
qed

lemma hd_split_leading:
  assumes "noLeadingSpace l"
  shows "noLeadingSpace (hd (split (CHR '','') l))"
proof (cases l)
  case Nil
  then show ?thesis by (simp add: noLeadingSpace_def)
next
  case (Cons c cs)
  with assms have "noLeadingSpace (takeWhile (\<lambda>x. x \<noteq> CHR '','') l)"
    by (simp add: noLeadingSpace_def)
  then show ?thesis by (simp only: hd_split)
qed

lemma parseRecord_plainLine:
  assumes "plainLine l"
  shows "noLeadingSpace (r_driverID (parseRecord l))"
    and "r_date (parseRecord l) = Some (split (CHR '','') l ! 2)"
  using assms by (simp_all add: plainLine_def parseRecord_def Let_def hd_split_leading at_def)

lemma written_one_record:
  assumes p: "plainFields obj"
    and w: "addShiftRecord textFile obj = (Some content', Some r)"
    and st: "list_all plainLine (readLines (case textFile of None \<Rightarrow> [] | Some c \<Rightarrow> c))"
  shows "length (recordsFor content' (o_driverID obj) (o_date obj)) = 1"
proof -
  let ?old = "readLines (case textFile of None \<Rightarrow> [] | Some c \<Rightarrow> c)"
  let ?recs = "map parseRecord ?old"
  let ?new = "makeRecord obj"
  let ?sorted = "sortRecords (?recs @ [?new])"
  let ?Q = "\<lambda>r. r_driverID r = o_driverID obj \<and> strOf (r_date r) = o_date obj"
  have c: "content' = join (CHR 0x0A) (map formatRecord ?sorted)"
    using addShiftRecord_written(2) [OF w] by simp
  have nodup: "\<not> list_ex (isDuplicate obj) ?recs"
    using addShiftRecord_written(1) [OF w] .
  have plain: "\<forall>r\<in>set ?sorted. plainRecord r"
    using p by (auto simp: set_sortRecords plainRecord_makeRecord
        plainRecord_parseRecord readLines_no_newline)
  have lead: "\<forall>r\<in>set ?sorted. noLeadingSpace (r_driverID r)"
    using p st
    by (auto simp: set_sortRecords list_all_iff parseRecord_plainLine(1)
        plainFields_def makeRecord_def Let_def)
  obtain s rest where sr: "?sorted = s # rest"
    by (cases ?sorted) (use set_sortRecords [of "?recs @ [?new]"] in auto)
  have keep: "dropWhile isWhiteSpace (formatRecord s) = formatRecord s"
    using lead sr by (intro formatRecord_no_leading_space) simp
  have "readLines content' = dropWhile isWhiteSpace (formatRecord s) # map formatRecord rest"
    using plain unfolding c sr by (intro readLines_written) simp
  then have lines: "readLines content' = map formatRecord ?sorted"
    by (simp add: keep sr)
  have key: "(r_driverID (parseRecord (formatRecord x)) = o_driverID obj
               \<and> r_date (parseRecord (formatRecord x)) = Some (o_date obj)) = ?Q x"
    if "x \<in> set ?sorted" for x
    using that plain by (auto simp: parseRecord_formatRecord)
  have "recordsFor content' (o_driverID obj) (o_date obj)
          = filter (\<lambda>r. r_driverID r = o_driverID obj \<and> r_date r = Some (o_date obj))
              (map (\<lambda>x. parseRecord (formatRecord x)) ?sorted)"
    by (simp add: recordsFor_def lines comp_def)
  then have "length (recordsFor content' (o_driverID obj) (o_date obj))
          = length (filter (\<lambda>x. r_driverID (parseRecord (formatRecord x)) = o_driverID obj
                          \<and> r_date (parseRecord (formatRecord x)) = Some (o_date obj)) ?sorted)"
    by (simp add: filter_map comp_def)
  also have "\<dots> = length (filter ?Q ?sorted)"
    using key by (intro arg_cong [where f = length] filter_cong) auto
  also have "\<dots> = length (filter ?Q (?recs @ [?new]))"
    by (rule count_sortRecords)
  also have "\<dots> = length (filter ?Q ?recs) + 1"
    by (simp add: isDuplicate_makeRecord)
  also have "filter ?Q ?recs = []"
  proof -
    have "\<not> ?Q (parseRecord l)" if "l \<in> set ?old" for l
    proof -
      from st that have "plainLine l" by (simp add: list_all_iff)
      then have d: "r_date (parseRecord l) = Some (split (CHR '','') l ! 2)"
        by (rule parseRecord_plainLine(2))
      from nodup that have "\<not> isDuplicate obj (parseRecord l)"
        by (auto simp: list_ex_iff)
      then show ?thesis by (auto simp: isDuplicate_def d strOf_def)
    qed
    then show ?thesis by (auto simp: filter_empty_conv)
  qed
  finally show ?thesis by simp
qed

text \<open>
  C8, amended. A record whose \<open>(driverID, date)\<close> pair is already in the file is rejected:
  \<open>addShiftRecord\<close> returns the empty result and leaves the file as it is. Hence, when the
  five fields of an appended record contain no comma and no line feed and its driverID
  does not begin with white space, a second append with the same pair is rejected and
  leaves the file as the first append wrote it; and when moreover every line that was in
  the file has at least three fields and does not begin with white space, the file then
  holds exactly one record for that pair.
\<close>

theorem addShiftRecord_duplicate:
  "(list_ex (isDuplicate obj) (map parseRecord (readLines content))
      \<longrightarrow> addShiftRecord (Some content) obj = (Some content, None))
 \<and> (plainFields obj \<and> addShiftRecord textFile obj = (Some content', Some r)
      \<and> o_driverID obj' = o_driverID obj \<and> o_date obj' = o_date obj
      \<longrightarrow> addShiftRecord (Some content') obj' = (Some content', None))
 \<and> (plainFields obj \<and> addShiftRecord textFile obj = (Some content', Some r)
      \<and> list_all plainLine (readLines (case textFile of None \<Rightarrow> [] | Some c \<Rightarrow> c))
      \<longrightarrow> length (recordsFor content' (o_driverID obj) (o_date obj)) = 1)"
proof (intro conjI impI)
  assume "list_ex (isDuplicate obj) (map parseRecord (readLines content))"
  then show "addShiftRecord (Some content) obj = (Some content, None)"
    by (simp add: addShiftRecord_def)
next
  assume a: "plainFields obj \<and> addShiftRecord textFile obj = (Some content', Some r)
      \<and> o_driverID obj' = o_driverID obj \<and> o_date obj' = o_date obj"
  then have "list_ex (isDuplicate obj) (map parseRecord (readLines content'))"
    using written_has_duplicate by blast
  moreover have "isDuplicate obj' = isDuplicate obj"
    using a by (simp add: isDuplicate_def fun_eq_iff)
  ultimately show "addShiftRecord (Some content') obj' = (Some content', None)"
    by (simp add: addShiftRecord_def)
next
  assume "plainFields obj \<and> addShiftRecord textFile obj = (Some content', Some r)
      \<and> list_all plainLine (readLines (case textFile of None \<Rightarrow> [] | Some c \<Rightarrow> c))"
  then show "length (recordsFor content' (o_driverID obj) (o_date obj)) = 1"
    using written_one_record by blast
qed

theorem addShiftRecord_duplicate_witness:
  "\<exists>r. plainFields \<lparr>o_driverID = ''D1'', o_driverName = ''Ali'', o_date = ''2025-04-01'',
                     o_startTime = ''8:00:00 am'', o_endTime = ''5:00:00 pm''\<rparr>
     \<and> list_all plainLine
          (readLines ''D2,Omar,2025-04-02,8:00:00 am,5:00:00 pm,9:00:00,0:00:00,9:00:00,true,false'')
     \<and> addShiftRecord
          (Some ''D2,Omar,2025-04-02,8:00:00 am,5:00:00 pm,9:00:00,0:00:00,9:00:00,true,false'')
          \<lparr>o_driverID = ''D1'', o_driverName = ''Ali'', o_date = ''2025-04-01'',
           o_startTime = ''8:00:00 am'', o_endTime = ''5:00:00 pm''\<rparr>
        = (Some (''D1,Ali,2025-04-01,8:00:00 am,5:00:00 pm,9:00:00,0:00:00,9:00:00,true,false''
                 @ [CHR 0x0A]
                 @ ''D2,Omar,2025-04-02,8:00:00 am,5:00:00 pm,undefined,undefined,undefined,undefined,undefined''),
           Some r)
     \<and> addShiftRecord
          (Some (''D1,Ali,2025-04-01,8:00:00 am,5:00:00 pm,9:00:00,0:00:00,9:00:00,true,false''
                 @ [CHR 0x0A]
                 @ ''D2,Omar,2025-04-02,8:00:00 am,5:00:00 pm,undefined,undefined,undefined,undefined,undefined''))
          \<lparr>o_driverID = ''D1'', o_driverName = ''Ali B'', o_date = ''2025-04-01'',
           o_startTime = ''9:00:00 am'', o_endTime = ''6:00:00 pm''\<rparr>
        = (Some (''D1,Ali,2025-04-01,8:00:00 am,5:00:00 pm,9:00:00,0:00:00,9:00:00,true,false''
                 @ [CHR 0x0A]
                 @ ''D2,Omar,2025-04-02,8:00:00 am,5:00:00 pm,undefined,undefined,undefined,undefined,undefined''),
           None)
     \<and> length (recordsFor
          (''D1,Ali,2025-04-01,8:00:00 am,5:00:00 pm,9:00:00,0:00:00,9:00:00,true,false''
           @ [CHR 0x0A]
           @ ''D2,Omar,2025-04-02,8:00:00 am,5:00:00 pm,undefined,undefined,undefined,undefined,undefined'')
          ''D1'' ''2025-04-01'') = 1"
proof -
  define obj where "obj = \<lparr>o_driverID = ''D1'', o_driverName = ''Ali'', o_date = ''2025-04-01'',
                     o_startTime = ''8:00:00 am'', o_endTime = ''5:00:00 pm''\<rparr>"
  define obj' where "obj' = \<lparr>o_driverID = ''D1'', o_driverName = ''Ali B'', o_date = ''2025-04-01'',
           o_startTime = ''9:00:00 am'', o_endTime = ''6:00:00 pm''\<rparr>"
  define old where "old = ''D2,Omar,2025-04-02,8:00:00 am,5:00:00 pm,9:00:00,0:00:00,9:00:00,true,false''"
  define new where "new = ''D1,Ali,2025-04-01,8:00:00 am,5:00:00 pm,9:00:00,0:00:00,9:00:00,true,false''
                 @ [CHR 0x0A]
                 @ ''D2,Omar,2025-04-02,8:00:00 am,5:00:00 pm,undefined,undefined,undefined,undefined,undefined''"
  define r where "r = makeRecord obj"
  have p: "plainFields obj"
    unfolding obj_def by code_simp
  have l: "list_all plainLine (readLines (case Some old of None \<Rightarrow> [] | Some c \<Rightarrow> c))"
    unfolding old_def by code_simp
  have e: "addShiftRecord (Some old) obj = (Some new, Some r)"
    unfolding old_def obj_def new_def r_def by code_simp
  have k: "o_driverID obj' = o_driverID obj \<and> o_date obj' = o_date obj"
    by (simp add: obj_def obj'_def)
  note t = addShiftRecord_duplicate [of obj old "Some old" new r obj']
  from t p e k have r2: "addShiftRecord (Some new) obj' = (Some new, None)"
    by blast
  from t p e l have r3: "length (recordsFor new (o_driverID obj) (o_date obj)) = 1"
    by blast
  have r3': "length (recordsFor new ''D1'' ''2025-04-01'') = 1"
    using r3 by (simp add: obj_def)
  from l have l': "list_all plainLine (readLines old)" by simp
  show ?thesis
    using p l' e r2 r3'
    unfolding obj_def [symmetric] obj'_def [symmetric] old_def [symmetric] new_def [symmetric]
    by blast
qed

theorem addShiftRecord_twice_counterexample:
  "addShiftRecord None
     \<lparr>o_driverID = ''D1'', o_driverName = ''Ali, Omar'', o_date = ''2025-04-01'',
      o_startTime = ''8:00:00 am'', o_endTime = ''5:00:00 pm''\<rparr>
   = (Some ''D1,Ali, Omar,2025-04-01,8:00:00 am,5:00:00 pm,9:00:00,0:00:00,9:00:00,true,false'',
      Some \<lparr>r_driverID = ''D1'', r_driverName = Some ''Ali, Omar'', r_date = Some ''2025-04-01'',
        r_startTime = Some ''8:00:00 am'', r_endTime = Some ''5:00:00 pm'',
        r_shiftDuration = Some ''9:00:00'', r_idleTime = Some ''0:00:00'',
        r_activeTime = Some ''9:00:00'', r_metQuota = Some True, r_hasBonus = Some False\<rparr>)
   \<and> addShiftRecord
     (Some ''D1,Ali, Omar,2025-04-01,8:00:00 am,5:00:00 pm,9:00:00,0:00:00,9:00:00,true,false'')
     \<lparr>o_driverID = ''D1'', o_driverName = ''Ali, Omar'', o_date = ''2025-04-01'',
      o_startTime = ''8:00:00 am'', o_endTime = ''5:00:00 pm''\<rparr>
   = (Some (''D1,Ali, Omar,2025-04-01,8:00:00 am,undefined,undefined,undefined,undefined,undefined''
            @ [CHR 0x0A]
            @ ''D1,Ali, Omar,2025-04-01,8:00:00 am,5:00:00 pm,9:00:00,0:00:00,9:00:00,true,false''),
      Some \<lparr>r_driverID = ''D1'', r_driverName = Some ''Ali, Omar'', r_date = Some ''2025-04-01'',
        r_startTime = Some ''8:00:00 am'', r_endTime = Some ''5:00:00 pm'',
        r_shiftDuration = Some ''9:00:00'', r_idleTime = Some ''0:00:00'',
        r_activeTime = Some ''9:00:00'', r_metQuota = Some True, r_hasBonus = Some False\<rparr>)"
  by code_simp

section \<open>The monthly aggregates on a host at or east of UTC\<close>

text \<open>
  \<open>countBonusPerMonth\<close> and \<open>getTotalActiveHoursPerMonth\<close> read the month of a date with
  \<open>getMonth\<close>, in local time. On a host whose offset from UTC is not negative the local
  day of midnight UTC is the same calendar day, and both functions select the lines dated
  in the target month: the count is \<open>-1\<close> without a bonus line of the driver and the
  number of the driver's bonus lines of the month otherwise, and the total is the sum of
  the active times of the driver's lines of the month. Both results are stated for
  records dated in the form \<open>yyyy-mm-dd\<close> and a month written in decimal digits.
\<close>

lemma getMonth_east:
  assumes "eastOfUTC tz"
  shows "strictEq (nadd (getMonth tz d) (Some 1)) (Some m) = dateInMonth d m"
proof (cases "parseDate d")
  case None
  then show ?thesis
    by (simp add: getMonth_def dateInMonth_def strictEq_def nadd_def)
next
  case (Some c)
  obtain y mo da where c: "c = (y, mo, da)" by (cases c) auto
  let ?t = "makeDay y mo da * msPerDay"
  from assms have "0 \<le> tz ?t" "tz ?t < 1440" by (simp_all add: eastOfUTC_def)
  then have "tz ?t * 60 div 86400 = 0" by simp
  with Some c show ?thesis
    by (auto simp: getMonth_def dateInMonth_def strictEq_def nadd_def shiftDays_def)
qed

lemma countBonusStep_east:
  assumes "eastOfUTC tz"
  shows "countBonusStep tz driverID (toNumber month) st line =
           (if bonusLine driverID line
            then (True, if bonusLineIn month line then snd st + 1 else snd st)
            else st)"
proof (cases "toNumber month")
  case None
  then show ?thesis
    by (auto simp: countBonusStep_def bonusLine_def bonusLineIn_def Let_def strictEq_def
        split: option.splits)
next
  case (Some m)
  then show ?thesis
    by (auto simp: countBonusStep_def bonusLine_def bonusLineIn_def Let_def
        getMonth_east [OF assms])
qed

lemma countBonus_fold:
  assumes "eastOfUTC tz"
  shows "foldl (countBonusStep tz driverID (toNumber month)) (ex, cnt) ls =
           (ex \<or> filter (bonusLine driverID) ls \<noteq> [],
            cnt + int (length (filter (bonusLineIn month) (filter (bonusLine driverID) ls))))"
proof -
  define step where "step = countBonusStep tz driverID (toNumber month)"
  have st: "step s l = (if bonusLine driverID l
                        then (True, if bonusLineIn month l then snd s + 1 else snd s)
                        else s)" for s l
    unfolding step_def by (rule countBonusStep_east [OF assms])
  have "foldl step (ex, cnt) ls =
           (ex \<or> filter (bonusLine driverID) ls \<noteq> [],
            cnt + int (length (filter (bonusLineIn month) (filter (bonusLine driverID) ls))))"
  proof (induction ls arbitrary: ex cnt)
    case Nil
    then show ?case by simp
  next
    case (Cons l ls)
    obtain ex' cnt' where s: "step (ex, cnt) l = (ex', cnt')"
      by (cases "step (ex, cnt) l") auto
    with st [of "(ex, cnt)" l] have v: "ex' = (ex \<or> bonusLine driverID l)"
      "cnt' = cnt + (if bonusLine driverID l \<and> bonusLineIn month l then 1 else 0)"
      by (auto split: if_splits)
    show ?case by (simp add: s Cons.IH v)
  qed
  then show ?thesis by (simp add: step_def)
qed

lemma countBonusPerMonth_east:
  assumes "eastOfUTC tz"
    and "toNumber month = Some m"
    and "list_all (\<lambda>line. isoDated (trim line)) (filter (bonusLine driverID) (readLines content))"
  shows "countBonusPerMonth tz (Some content) driverID month =
           (if filter (bonusLine driverID) (readLines content) = [] then - 1
            else int (length (filter (\<lambda>line. dateInMonth (split (CHR '','') (trim line) ! 2) m)
                               (filter (bonusLine driverID) (readLines content)))))"
proof -
  have "bonusLineIn month = (\<lambda>line. dateInMonth (split (CHR '','') (trim line) ! 2) m)"
    using assms(2) by (simp add: bonusLineIn_def fun_eq_iff)
  then show ?thesis
    by (simp add: countBonusPerMonth_def Let_def countBonus_fold [OF assms(1)])
qed

lemma countBonusPerMonth_absent: "countBonusPerMonth tz None driverID month = - 1"
  by (simp add: countBonusPerMonth_def)

lemma totalActiveStep_east:
  assumes "eastOfUTC tz"
  shows "totalActiveStep tz driverID month acc line =
           (if driverLineIn driverID month line
            then nadd acc (parseToSeconds (split (CHR '','') line ! 7))
            else acc)"
  by (auto simp: totalActiveStep_def driverLineIn_def Let_def getMonth_east [OF assms])

lemma getTotalActiveHoursPerMonth_east:
  assumes east: "eastOfUTC tz"
    and "list_all isoDated (filter (driverRecord driverID) (readLines content))"
  shows "getTotalActiveHoursPerMonth tz (Some content) driverID month =
           Inr (formatToTime (foldl nadd (Some 0)
                  (map (\<lambda>line. parseToSeconds (split (CHR '','') line ! 7))
                     (filter (driverLineIn driverID month) (readLines content)))))"
proof -
  define step where "step = totalActiveStep tz driverID month"
  have st: "step acc l = (if driverLineIn driverID month l
                          then nadd acc (parseToSeconds (split (CHR '','') l ! 7))
                          else acc)" for acc l
    unfolding step_def by (rule totalActiveStep_east [OF east])
  have "foldl step acc ls =
          foldl nadd acc (map (\<lambda>line. parseToSeconds (split (CHR '','') line ! 7))
                            (filter (driverLineIn driverID month) ls))" for acc ls
  proof (induction ls arbitrary: acc)
    case Nil
    then show ?case by simp
  next
    case (Cons l ls)
    define acc' where "acc' = step acc l"
    with st [of acc l] have v: "acc' = (if driverLineIn driverID month l
        then nadd acc (parseToSeconds (split (CHR '','') l ! 7)) else acc)"
      by simp
    have "foldl step acc (l # ls) = foldl step acc' ls"
      by (simp add: acc'_def)
    then show ?case by (simp only: Cons.IH v) simp
  qed
  then show ?thesis by (simp add: getTotalActiveHoursPerMonth_def step_def)
qed

section \<open>Where the code departs from its documentation\<close>

text \<open>
  C1. A successful append does not keep the five derived fields of the records already in
  the file. The objects read back carry the first five fields only, so the rewrite prints
  \<open>undefined\<close> for shift duration, idle time, active time, quota flag and bonus flag of
  every earlier record. Here the file holds one record, with \<open>hasBonus\<close> true, and a
  record for another driver and a later date is appended.
\<close>

theorem addShiftRecord_rewrites_existing:
  "addShiftRecord
     (Some ''D1,Ali,2025-04-01,8:00:00 am,5:00:00 pm,9:00:00,0:00:00,9:00:00,true,true'')
     \<lparr>o_driverID = ''D2'', o_driverName = ''Omar'', o_date = ''2025-04-02'',
      o_startTime = ''8:00:00 am'', o_endTime = ''5:00:00 pm''\<rparr>
   = (Some (''D1,Ali,2025-04-01,8:00:00 am,5:00:00 pm,undefined,undefined,undefined,undefined,undefined''
            @ [CHR 0x0A]
            @ ''D2,Omar,2025-04-02,8:00:00 am,5:00:00 pm,9:00:00,0:00:00,9:00:00,true,false''),
      Some \<lparr>r_driverID = ''D2'', r_driverName = Some ''Omar'', r_date = Some ''2025-04-02'',
        r_startTime = Some ''8:00:00 am'', r_endTime = Some ''5:00:00 pm'',
        r_shiftDuration = Some ''9:00:00'', r_idleTime = Some ''0:00:00'',
        r_activeTime = Some ''9:00:00'', r_metQuota = Some True, r_hasBonus = Some False\<rparr>)"
  by code_simp

text \<open>
  C2. \<open>countBonusPerMonth\<close> takes the month of a record's date in the host's local time,
  although the date is read as midnight UTC. On a host five hours west of Greenwich a
  bonus record dated 2025-05-01 is counted in April: the query for month 5 returns 0,
  where it returns 1 on a host running in UTC.
\<close>

theorem countBonusPerMonth_west_of_utc:
  "countBonusPerMonth (\<lambda>t. - 300)
     (Some ''D1,Ali,2025-05-01,8:00:00 am,5:00:00 pm,9:00:00,0:00:00,9:00:00,true,true'')
     ''D1'' ''5'' = 0
   \<and> countBonusPerMonth (\<lambda>t. 0)
     (Some ''D1,Ali,2025-05-01,8:00:00 am,5:00:00 pm,9:00:00,0:00:00,9:00:00,true,true'')
     ''D1'' ''5'' = 1"
  by code_simp

text \<open>
  C3. With an absent shift file \<open>getTotalActiveHoursPerMonth\<close> does not return the zero
  duration: the guard computes \<open>formatToTime(0)\<close> without returning it, and the read that
  follows throws.
\<close>

theorem getTotalActiveHoursPerMonth_absent_file:
  "getTotalActiveHoursPerMonth tz None driverID month = Inl ENOENT"
  by (simp add: getTotalActiveHoursPerMonth_def)

text \<open>
  C5. \<open>getNetPay\<close> has an empty body and returns \<open>undefined\<close> for every input, also for
  the specification's example of base pay 18500, tier 2 and 25 missing hours.
\<close>

theorem getNetPay_stub:
  "getNetPay ''D1'' ''100:00:00'' ''125:00:00'' (Some ''D1,Friday,18500,2'') = None"
  by (simp add: getNetPay_def)

end
